theory Spec2Isabelle
  imports Main
begin

section \<open>syojctl: a command-line client for the SYOJ judge\<close>

text \<open>
  Go strings are byte sequences, so they are modelled as \<^typ>\<open>string\<close> (lists of
  8-bit characters). The calls to the logger only write to standard error and are
  left out of the model. The functions of the Go standard library that the program calls
  in \<^verbatim>\<open>unicode/utf8\<close>, \<^verbatim>\<open>encoding/json\<close>, \<^verbatim>\<open>net/url\<close> and
  \<^verbatim>\<open>bufio\<close>, and those of \<^verbatim>\<open>github.com/adrg/xdg\<close>, are modelled after their
  documented behaviour, as far as the program uses them. The HTTP client of
  \<^verbatim>\<open>net/http\<close> with its cookie jar is a parameter of the operations that use it.
\<close>

subsection \<open>unicode/utf8\<close>

definition RuneError :: nat where
  "RuneError = 0xFFFD"

definition continuation :: "char \<Rightarrow> bool" where
  "continuation c = (0x80 \<le> (of_char c :: nat) \<and> (of_char c :: nat) \<le> 0xBF)"

text \<open>first[p0]: the size of the sequence a leading byte starts and the range accepted for the second byte\<close>
definition lead_info :: "nat \<Rightarrow> (nat \<times> nat \<times> nat) option" where
  "lead_info p0 =
     (if 0xC2 \<le> p0 \<and> p0 \<le> 0xDF then Some (2, 0x80, 0xBF)
      else if p0 = 0xE0 then Some (3, 0xA0, 0xBF)
      else if 0xE1 \<le> p0 \<and> p0 \<le> 0xEC then Some (3, 0x80, 0xBF)
      else if p0 = 0xED then Some (3, 0x80, 0x9F)
      else if 0xEE \<le> p0 \<and> p0 \<le> 0xEF then Some (3, 0x80, 0xBF)
      else if p0 = 0xF0 then Some (4, 0x90, 0xBF)
      else if 0xF1 \<le> p0 \<and> p0 \<le> 0xF3 then Some (4, 0x80, 0xBF)
      else if p0 = 0xF4 then Some (4, 0x80, 0x8F)
      else None)"

definition DecodeRune :: "string \<Rightarrow> nat \<times> nat" where
  "DecodeRune p =
     (case p of
        [] \<Rightarrow> (RuneError, 0)
      | c0 # p1 \<Rightarrow>
          let p0 = (of_char c0 :: nat) in
          if p0 < 0x80 then (p0, 1)
          else (case lead_info p0 of
            None \<Rightarrow> (RuneError, 1)
          | Some (sz, lo, hi) \<Rightarrow>
              if length p < sz then (RuneError, 1)
              else (case p1 of
                [] \<Rightarrow> (RuneError, 1)
              | c1 # p2 \<Rightarrow>
                let b1 = (of_char c1 :: nat) in
                if b1 < lo \<or> hi < b1 then (RuneError, 1)
                else if sz \<le> 2 then ((p0 mod 32) * 64 + b1 mod 64, 2)
                else (case p2 of
                  [] \<Rightarrow> (RuneError, 1)
                | c2 # p3 \<Rightarrow>
                  let b2 = (of_char c2 :: nat) in
                  if b2 < 0x80 \<or> 0xBF < b2 then (RuneError, 1)
                  else if sz \<le> 3
                    then ((p0 mod 16) * 4096 + (b1 mod 64) * 64 + b2 mod 64, 3)
                  else (case p3 of
                    [] \<Rightarrow> (RuneError, 1)
                  | c3 # p4 \<Rightarrow>
                    let b3 = (of_char c3 :: nat) in
                    if b3 < 0x80 \<or> 0xBF < b3 then (RuneError, 1)
                    else ((p0 mod 8) * 262144 + (b1 mod 64) * 4096 + (b2 mod 64) * 64
                            + b3 mod 64, 4))))))"

definition EncodeRune :: "nat \<Rightarrow> string" where
  "EncodeRune r =
     (if r \<le> 0x7F then [char_of r]
      else if r \<le> 0x7FF then [char_of (0xC0 + r div 64), char_of (0x80 + r mod 64)]
      else if r > 0x10FFFF \<or> (0xD800 \<le> r \<and> r \<le> 0xDFFF)
        then [char_of (0xEF :: nat), char_of (0xBF :: nat), char_of (0xBD :: nat)]
      else if r \<le> 0xFFFF
        then [char_of (0xE0 + r div 4096), char_of (0x80 + (r div 64) mod 64),
              char_of (0x80 + r mod 64)]
      else [char_of (0xF0 + r div 262144), char_of (0x80 + (r div 4096) mod 64),
            char_of (0x80 + (r div 64) mod 64), char_of (0x80 + r mod 64)])"


lemma DecodeRune_size_pos: "p \<noteq> [] \<Longrightarrow> 0 < snd (DecodeRune p)"
  by (auto simp: DecodeRune_def Let_def split: list.splits option.splits)

lemma mod_offset:
  fixes a k m :: nat
  shows "a < m \<Longrightarrow> (k * m + a) mod m = a"
  by simp

lemma div_offset:
  fixes a k m :: nat
  shows "a < m \<Longrightarrow> (k * m + a) div m = k"
  by simp

lemma enc2:
  fixes p0 b1 :: nat
  assumes "0xC2 \<le> p0" "p0 \<le> 0xDF" "0x80 \<le> b1" "b1 \<le> 0xBF"
  shows "EncodeRune ((p0 mod 32) * 64 + b1 mod 64) = [char_of p0, char_of b1]"
proof -
  define a b where "a = p0 - 0xC0" and "b = b1 - 0x80"
  have p0: "p0 = 6 * 32 + a" and b1: "b1 = 2 * 64 + b" and bounds: "2 \<le> a" "a < 32" "b < 64"
    using assms by (auto simp: a_def b_def)
  have m: "p0 mod 32 = a" "b1 mod 64 = b"
    unfolding p0 b1 using bounds by (simp_all only: mod_offset)
  have r: "128 \<le> a * 64 + b" "a * 64 + b \<le> 2047"
    using bounds by auto
  have d: "(a * 64 + b) div 64 = a" "(a * 64 + b) mod 64 = b"
    using bounds by auto
  have e: "EncodeRune (a * 64 + b) = [char_of (0xC0 + a), char_of (0x80 + b)]"
    using r bounds by (simp add: EncodeRune_def d)
  have "0xC0 + a = p0" "0x80 + b = b1"
    unfolding p0 b1 by simp_all
  with e show ?thesis
    by (simp only: m)
qed

lemma enc3:
  fixes p0 b1 b2 :: nat
  assumes "0xE0 \<le> p0" "p0 \<le> 0xEF" "0x80 \<le> b1" "b1 \<le> 0xBF" "0x80 \<le> b2" "b2 \<le> 0xBF"
    and "p0 = 0xE0 \<Longrightarrow> 0xA0 \<le> b1" and "p0 = 0xED \<Longrightarrow> b1 \<le> 0x9F"
  shows "EncodeRune ((p0 mod 16) * 4096 + (b1 mod 64) * 64 + b2 mod 64)
           = [char_of p0, char_of b1, char_of b2]"
proof -
  define a b c where "a = p0 - 0xE0" and "b = b1 - 0x80" and "c = b2 - 0x80"
  have p0: "p0 = 14 * 16 + a" and b1: "b1 = 2 * 64 + b" and b2: "b2 = 2 * 64 + c"
    and bounds: "a < 16" "b < 64" "c < 64"
    using assms by (auto simp: a_def b_def c_def)
  have sp: "a = 0 \<Longrightarrow> 32 \<le> b" "a = 13 \<Longrightarrow> b \<le> 31"
    using assms(7,8) unfolding p0 b1 by auto
  have m: "p0 mod 16 = a" "b1 mod 64 = b" "b2 mod 64 = c"
    unfolding p0 b1 b2 using bounds by (simp_all only: mod_offset)
  let ?r = "a * 4096 + b * 64 + c"
  have r1: "2048 \<le> ?r"
    using bounds sp(1) by (cases "a = 0") auto
  have r2: "?r \<le> 65535"
    using bounds by auto
  have r3: "\<not> (55296 \<le> ?r \<and> ?r \<le> 57343)"
  proof (cases "a = 13")
    case True
    with sp(2) bounds show ?thesis by auto
  next
    case False
    then have "a \<le> 12 \<or> 14 \<le> a" by auto
    with bounds show ?thesis by auto
  qed
  have split: "?r = (a * 64 + b) * 64 + c"
    by simp
  have bc: "b * 64 + c < 4096"
    using bounds by auto
  have "?r = a * 4096 + (b * 64 + c)"
    by simp
  then have d1: "?r div 4096 = a"
    using bc by (simp only: div_offset)
  have q: "?r div 64 = a * 64 + b"
    by (subst split) (simp only: div_offset bounds)
  have d2: "(?r div 64) mod 64 = b"
    by (subst q) (simp only: mod_offset bounds)
  have d3: "?r mod 64 = c"
    by (subst split) (simp only: mod_offset bounds)
  have e: "EncodeRune ?r = [char_of (0xE0 + a), char_of (0x80 + b), char_of (0x80 + c)]"
    using r1 r2 r3 bounds by (simp add: EncodeRune_def d1 d2 d3)
  have "0xE0 + a = p0" "0x80 + b = b1" "0x80 + c = b2"
    unfolding p0 b1 b2 by simp_all
  with e show ?thesis
    by (simp only: m)
qed

lemma enc4:
  fixes p0 b1 b2 b3 :: nat
  assumes "0xF0 \<le> p0" "p0 \<le> 0xF4" "0x80 \<le> b1" "b1 \<le> 0xBF" "0x80 \<le> b2" "b2 \<le> 0xBF"
     "0x80 \<le> b3" "b3 \<le> 0xBF"
    and "p0 = 0xF0 \<Longrightarrow> 0x90 \<le> b1" and "p0 = 0xF4 \<Longrightarrow> b1 \<le> 0x8F"
  shows "EncodeRune ((p0 mod 8) * 262144 + (b1 mod 64) * 4096 + (b2 mod 64) * 64 + b3 mod 64)
           = [char_of p0, char_of b1, char_of b2, char_of b3]"
proof -
  define a b c d where "a = p0 - 0xF0" and "b = b1 - 0x80" and "c = b2 - 0x80" and "d = b3 - 0x80"
  have p0: "p0 = 30 * 8 + a" and b1: "b1 = 2 * 64 + b" and b2: "b2 = 2 * 64 + c"
    and b3: "b3 = 2 * 64 + d"
    and bounds: "a < 5" "b < 64" "c < 64" "d < 64"
    using assms by (auto simp: a_def b_def c_def d_def)
  have sp: "a = 0 \<Longrightarrow> 16 \<le> b" "a = 4 \<Longrightarrow> b \<le> 15"
    using assms(9,10) unfolding p0 b1 by auto
  have a8: "a < 8" using bounds by simp
  have m: "p0 mod 8 = a" "b1 mod 64 = b" "b2 mod 64 = c" "b3 mod 64 = d"
    unfolding p0 b1 b2 b3 using bounds a8 by (simp_all only: mod_offset)
  let ?r = "a * 262144 + b * 4096 + c * 64 + d"
  have r1: "65536 \<le> ?r"
    using bounds sp(1) by (cases "a = 0") auto
  have r2: "?r \<le> 1114111"
  proof (cases "a = 4")
    case True
    with sp(2) bounds show ?thesis by auto
  next
    case False
    then have "a \<le> 3" using bounds by auto
    with bounds show ?thesis by auto
  qed
  have s1: "?r = ((a * 64 + b) * 64 + c) * 64 + d"
    by simp
  have q1: "?r div 64 = (a * 64 + b) * 64 + c"
    by (subst s1) (simp only: div_offset bounds)
  have d4: "?r mod 64 = d"
    by (subst s1) (simp only: mod_offset bounds)
  have d3: "(?r div 64) mod 64 = c"
    by (subst q1) (simp only: mod_offset bounds)
  have s2: "?r = (a * 64 + b) * 4096 + (c * 64 + d)"
    by simp
  have cd: "c * 64 + d < 4096"
    using bounds by auto
  have q2: "?r div 4096 = a * 64 + b"
    by (subst s2) (simp only: div_offset cd)
  have d2: "(?r div 4096) mod 64 = b"
    by (subst q2) (simp only: mod_offset bounds)
  have s3: "?r = a * 262144 + (b * 4096 + c * 64 + d)"
    by simp
  have bcd: "b * 4096 + c * 64 + d < 262144"
    using bounds by auto
  have d1: "?r div 262144 = a"
    by (subst s3) (simp only: div_offset bcd)
  have e: "EncodeRune ?r = [char_of (0xF0 + a), char_of (0x80 + b), char_of (0x80 + c),
      char_of (0x80 + d)]"
    using r1 r2 bounds by (simp add: EncodeRune_def d1 d2 d3 d4)
  have "0xF0 + a = p0" "0x80 + b = b1" "0x80 + c = b2" "0x80 + d = b3"
    unfolding p0 b1 b2 b3 by simp_all
  with e show ?thesis
    by (simp only: m)
qed


lemma lead_info_Some:
  assumes "lead_info p0 = Some (sz, lo, hi)"
  shows "(sz = 2 \<and> 0xC2 \<le> p0 \<and> p0 \<le> 0xDF \<and> lo = 0x80 \<and> hi = 0xBF) \<or>
         (sz = 3 \<and> 0xE0 \<le> p0 \<and> p0 \<le> 0xEF \<and> 0x80 \<le> lo \<and> hi \<le> 0xBF \<and>
            (p0 = 0xE0 \<longrightarrow> lo = 0xA0) \<and> (p0 = 0xED \<longrightarrow> hi = 0x9F)) \<or>
         (sz = 4 \<and> 0xF0 \<le> p0 \<and> p0 \<le> 0xF4 \<and> 0x80 \<le> lo \<and> hi \<le> 0xBF \<and>
            (p0 = 0xF0 \<longrightarrow> lo = 0x90) \<and> (p0 = 0xF4 \<longrightarrow> hi = 0x8F))"
  using assms by (auto simp: lead_info_def split: if_splits)

lemma DecodeRune_multi:
  assumes "DecodeRune (c0 # p1) = (r, n)" and "\<not> (of_char c0 :: nat) < 0x80"
    and "lead_info (of_char c0) = Some (sz, lo, hi)"
  shows "(r = RuneError \<and> n = 1) \<or>
     (\<exists>c1 p2. p1 = c1 # p2 \<and> sz = 2 \<and> lo \<le> (of_char c1 :: nat) \<and> (of_char c1 :: nat) \<le> hi \<and>
        r = ((of_char c0 :: nat) mod 32) * 64 + (of_char c1 :: nat) mod 64 \<and> n = 2) \<or>
     (\<exists>c1 c2 p3. p1 = c1 # c2 # p3 \<and> sz = 3 \<and> lo \<le> (of_char c1 :: nat) \<and> (of_char c1 :: nat) \<le> hi \<and>
        0x80 \<le> (of_char c2 :: nat) \<and> (of_char c2 :: nat) \<le> 0xBF \<and>
        r = ((of_char c0 :: nat) mod 16) * 4096 + ((of_char c1 :: nat) mod 64) * 64
              + (of_char c2 :: nat) mod 64 \<and> n = 3) \<or>
     (\<exists>c1 c2 c3 p4. p1 = c1 # c2 # c3 # p4 \<and> sz = 4 \<and> lo \<le> (of_char c1 :: nat) \<and> (of_char c1 :: nat) \<le> hi \<and>
        0x80 \<le> (of_char c2 :: nat) \<and> (of_char c2 :: nat) \<le> 0xBF \<and>
        0x80 \<le> (of_char c3 :: nat) \<and> (of_char c3 :: nat) \<le> 0xBF \<and>
        r = ((of_char c0 :: nat) mod 8) * 262144 + ((of_char c1 :: nat) mod 64) * 4096
              + ((of_char c2 :: nat) mod 64) * 64 + (of_char c3 :: nat) mod 64 \<and> n = 4)"
proof -
  from lead_info_Some [OF assms(3)] have sz: "sz = 2 \<or> sz = 3 \<or> sz = 4"
    by auto
  show ?thesis
  proof (cases p1)
    case Nil
    with assms sz show ?thesis
      by (simp add: DecodeRune_def Let_def split: if_splits)
  next
    case p1: (Cons c1 p2)
    show ?thesis
    proof (cases "(of_char c1 :: nat) < lo \<or> hi < (of_char c1 :: nat)")
      case True
      with assms p1 show ?thesis
        by (simp add: DecodeRune_def Let_def split: if_splits)
    next
      case ok1: False
      show ?thesis
      proof (cases "sz = 2")
        case True
        with assms p1 ok1 show ?thesis
          by (simp add: DecodeRune_def Let_def split: if_splits)
      next
        case n2: False
        show ?thesis
        proof (cases p2)
          case Nil
          with assms p1 ok1 n2 sz show ?thesis
            by (simp add: DecodeRune_def Let_def split: if_splits)
        next
          case p2: (Cons c2 p3)
          show ?thesis
          proof (cases "(of_char c2 :: nat) < 0x80 \<or> 0xBF < (of_char c2 :: nat)")
            case True
            with assms p1 p2 ok1 n2 sz show ?thesis
              by (simp add: DecodeRune_def Let_def split: if_splits)
          next
            case ok2: False
            show ?thesis
            proof (cases "sz = 3")
              case True
              with assms p1 p2 ok1 ok2 show ?thesis
                by (simp add: DecodeRune_def Let_def split: if_splits)
            next
              case n3: False
              with sz n2 have s4: "sz = 4" by simp
              show ?thesis
              proof (cases p3)
                case Nil
                with assms p1 p2 ok1 ok2 s4 show ?thesis
                  by (simp add: DecodeRune_def Let_def split: if_splits)
              next
                case p3: (Cons c3 p4)
                with assms p1 p2 ok1 ok2 s4 show ?thesis
                  by (simp add: DecodeRune_def Let_def split: if_splits)
              qed
            qed
          qed
        qed
      qed
    qed
  qed
qed

lemma EncodeRune_DecodeRune:
  assumes "DecodeRune p = (r, n)" "p \<noteq> []"
  shows "(r = RuneError \<and> n = 1) \<or> EncodeRune r = take n p"
proof -
  obtain c0 p1 where p: "p = c0 # p1"
    using assms(2) by (cases p) auto
  show ?thesis
  proof (cases "(of_char c0 :: nat) < 0x80")
    case True
    then have "r = of_char c0" "n = 1"
      using assms(1) by (auto simp: DecodeRune_def p Let_def)
    then show ?thesis
      using True by (simp add: EncodeRune_def p)
  next
    case high: False
    show ?thesis
    proof (cases "lead_info (of_char c0)")
      case None
      then show ?thesis
        using assms(1) high by (auto simp: DecodeRune_def p Let_def)
    next
      case (Some t)
      obtain sz lo hi where t: "t = (sz, lo, hi)"
        by (cases t)
      note li = lead_info_Some [OF Some [unfolded t]]
      from DecodeRune_multi [OF assms(1) [unfolded p] high Some [unfolded t]]
      consider "r = RuneError \<and> n = 1"
        | c1 p2 where "p1 = c1 # p2" "sz = 2" "lo \<le> (of_char c1 :: nat)" "(of_char c1 :: nat) \<le> hi"
            "r = ((of_char c0 :: nat) mod 32) * 64 + (of_char c1 :: nat) mod 64" "n = 2"
        | c1 c2 p3 where "p1 = c1 # c2 # p3" "sz = 3" "lo \<le> (of_char c1 :: nat)" "(of_char c1 :: nat) \<le> hi"
            "0x80 \<le> (of_char c2 :: nat)" "(of_char c2 :: nat) \<le> 0xBF"
            "r = ((of_char c0 :: nat) mod 16) * 4096 + ((of_char c1 :: nat) mod 64) * 64
              + (of_char c2 :: nat) mod 64" "n = 3"
        | c1 c2 c3 p4 where "p1 = c1 # c2 # c3 # p4" "sz = 4" "lo \<le> (of_char c1 :: nat)" "(of_char c1 :: nat) \<le> hi"
            "0x80 \<le> (of_char c2 :: nat)" "(of_char c2 :: nat) \<le> 0xBF"
            "0x80 \<le> (of_char c3 :: nat)" "(of_char c3 :: nat) \<le> 0xBF"
            "r = ((of_char c0 :: nat) mod 8) * 262144 + ((of_char c1 :: nat) mod 64) * 4096
              + ((of_char c2 :: nat) mod 64) * 64 + (of_char c3 :: nat) mod 64" "n = 4"
        by blast
      then show ?thesis
      proof cases
        case 1
        then show ?thesis by simp
      next
        case 2
        have "EncodeRune r = [c0, c1]"
          using enc2 [of "of_char c0" "of_char c1"] 2 li by simp
        with 2 show ?thesis by (simp add: p)
      next
        case 3
        have "EncodeRune r = [c0, c1, c2]"
          using enc3 [of "of_char c0" "of_char c1" "of_char c2"] 3 li by auto
        with 3 show ?thesis by (simp add: p)
      next
        case 4
        have "EncodeRune r = [c0, c1, c2, c3]"
          using enc4 [of "of_char c0" "of_char c1" "of_char c2" "of_char c3"] 4 li by auto
        with 4 show ?thesis by (simp add: p)
      qed
    qed
  qed
qed

subsection \<open>encoding/json: scanner and unquote\<close>

datatype json =
    JNull
  | JBool bool
  | JNumber string
  | JString string
  | JArray "json list"
  | JObject "(string \<times> json) list"

definition dquote :: char where "dquote = CHR 0x22"
definition backslash :: char where "backslash = CHR 0x5C"

definition isSpace :: "char \<Rightarrow> bool" where
  "isSpace c = (c = CHR '' '' \<or> c = CHR 0x09 \<or> c = CHR 0x0D \<or> c = CHR 0x0A)"

definition skip_space :: "string \<Rightarrow> string" where
  "skip_space = dropWhile isSpace"

definition is_digit :: "char \<Rightarrow> bool" where
  "is_digit c = (48 \<le> (of_char c :: nat) \<and> (of_char c :: nat) \<le> 57)"

definition hex_val :: "char \<Rightarrow> nat option" where
  "hex_val c =
     (let b = (of_char c :: nat) in
      if 48 \<le> b \<and> b \<le> 57 then Some (b - 48)
      else if 97 \<le> b \<and> b \<le> 102 then Some (b - 87)
      else if 65 \<le> b \<and> b \<le> 70 then Some (b - 55)
      else None)"

definition getu4 :: "string \<Rightarrow> nat option" where
  "getu4 s =
     (case s of
        b # u # h1 # h2 # h3 # h4 # _ \<Rightarrow>
          if b = backslash \<and> u = CHR ''u'' then
            (case (hex_val h1, hex_val h2, hex_val h3, hex_val h4) of
               (Some x1, Some x2, Some x3, Some x4) \<Rightarrow>
                 Some (((x1 * 16 + x2) * 16 + x3) * 16 + x4)
             | _ \<Rightarrow> None)
          else None
      | _ \<Rightarrow> None)"

definition IsSurrogate :: "nat \<Rightarrow> bool" where
  "IsSurrogate r = (0xD800 \<le> r \<and> r < 0xE000)"

definition utf16_DecodeRune :: "nat \<Rightarrow> nat \<Rightarrow> nat" where
  "utf16_DecodeRune r1 r2 =
     (if 0xD800 \<le> r1 \<and> r1 < 0xDC00 \<and> 0xDC00 \<le> r2 \<and> r2 < 0xE000
      then (r1 - 0xD800) * 1024 + (r2 - 0xDC00) + 0x10000
      else RuneError)"

definition simple_escape :: "char \<Rightarrow> char option" where
  "simple_escape e =
     (if e = dquote \<or> e = backslash \<or> e = CHR ''/'' then Some e
      else if e = CHR ''b'' then Some (CHR 0x08)
      else if e = CHR ''f'' then Some (CHR 0x0C)
      else if e = CHR ''n'' then Some (CHR 0x0A)
      else if e = CHR ''r'' then Some (CHR 0x0D)
      else if e = CHR ''t'' then Some (CHR 0x09)
      else None)"

datatype string_step = Closed string | Emit string string | Invalid

definition unquote_step :: "string \<Rightarrow> string_step" where
  "unquote_step s =
     (case s of
        [] \<Rightarrow> Invalid
      | c # cs \<Rightarrow>
          if c = dquote then Closed cs
          else if c = backslash then
            (case cs of
               [] \<Rightarrow> Invalid
             | e # es \<Rightarrow>
                 if e = CHR ''u'' then
                   (case getu4 s of
                      None \<Rightarrow> Invalid
                    | Some rr \<Rightarrow>
                        let rest = drop 6 s in
                        if IsSurrogate rr then
                          (case getu4 rest of
                             None \<Rightarrow> Emit (EncodeRune RuneError) rest
                           | Some rr1 \<Rightarrow>
                               let dec = utf16_DecodeRune rr rr1 in
                               if dec \<noteq> RuneError then Emit (EncodeRune dec) (drop 6 rest)
                               else Emit (EncodeRune RuneError) rest)
                        else Emit (EncodeRune rr) rest)
                 else (case simple_escape e of
                         None \<Rightarrow> Invalid
                       | Some ch \<Rightarrow> Emit [ch] es))
          else if (of_char c :: nat) < 0x20 then Invalid
          else if (of_char c :: nat) < 0x80 then Emit [c] cs
          else (case DecodeRune s of (r, n) \<Rightarrow> Emit (EncodeRune r) (drop n s)))"

lemma getu4_length: "getu4 s = Some r \<Longrightarrow> 6 \<le> length s"
  by (simp add: getu4_def split: list.splits)

lemma unquote_step_consumes:
  assumes "unquote_step s = Emit out rest"
  shows "length rest < length s"
proof (cases s)
  case Nil
  with assms show ?thesis by (simp add: unquote_step_def)
next
  case (Cons c cs)
  show ?thesis
  proof (cases "c = backslash")
    case True
    show ?thesis
    proof (cases cs)
      case Nil
      with assms Cons True show ?thesis by (simp add: unquote_step_def split: if_splits)
    next
      case (Cons e es)
      show ?thesis
      proof (cases "e = CHR ''u''")
        case False
        with assms \<open>s = c # cs\<close> Cons True show ?thesis
          by (auto simp: unquote_step_def split: if_splits option.splits)
      next
        case u: True
        show ?thesis
        proof (cases "getu4 s")
          case None
          with assms \<open>s = c # cs\<close> Cons True u show ?thesis
            by (simp add: unquote_step_def split: if_splits)
        next
          case (Some rr)
          then have len: "6 \<le> length s" by (rule getu4_length)
          have "rest = drop 6 s \<or> rest = drop 6 (drop 6 s)"
            using assms \<open>s = c # cs\<close> Cons True u Some
            by (simp add: unquote_step_def Let_def split: if_splits option.splits)
          with len show ?thesis by auto
        qed
      qed
    qed
  next
    case False
    have "0 < snd (DecodeRune s)"
      using DecodeRune_size_pos [of s] Cons by simp
    with assms Cons False show ?thesis
      by (auto simp: unquote_step_def split: if_splits prod.splits)
  qed
qed

function scan_string :: "string \<Rightarrow> (string \<times> string) option" where
  "scan_string s =
     (case unquote_step s of
        Invalid \<Rightarrow> None
      | Closed rest \<Rightarrow> Some ([], rest)
      | Emit out rest \<Rightarrow>
          (case scan_string rest of
             None \<Rightarrow> None
           | Some (str, rest') \<Rightarrow> Some (out @ str, rest')))"
  by pat_completeness auto
termination
  by (relation "measure length") (auto simp: unquote_step_consumes)

declare scan_string.simps [simp del]

definition scan_digits :: "string \<Rightarrow> (string \<times> string) option" where
  "scan_digits s =
     (if takeWhile is_digit s = [] then None
      else Some (takeWhile is_digit s, dropWhile is_digit s))"

definition scan_number :: "string \<Rightarrow> (string \<times> string) option" where
  "scan_number s =
     (let (sign, s1) = (case s of [] \<Rightarrow> ([], s)
                         | c # r \<Rightarrow> if c = CHR ''-'' then ([c], r) else ([], s)) in
      case (case s1 of
              [] \<Rightarrow> None
            | c # r \<Rightarrow>
                if c = CHR ''0'' then Some ([c], r)
                else if is_digit c then Some (c # takeWhile is_digit r, dropWhile is_digit r)
                else None) of
        None \<Rightarrow> None
      | Some (ip, s2) \<Rightarrow>
          (case (case s2 of
                   [] \<Rightarrow> Some ([], s2)
                 | c # r \<Rightarrow>
                     if c = CHR ''.'' then
                       (case scan_digits r of
                          None \<Rightarrow> None
                        | Some (ds, r') \<Rightarrow> Some (c # ds, r'))
                     else Some ([], s2)) of
             None \<Rightarrow> None
           | Some (fp, s3) \<Rightarrow>
               (case (case s3 of
                        [] \<Rightarrow> Some ([], s3)
                      | c # r \<Rightarrow>
                          if c = CHR ''e'' \<or> c = CHR ''E'' then
                            (let (sg, r1) = (case r of [] \<Rightarrow> ([], r)
                                  | d # r' \<Rightarrow> if d = CHR ''+'' \<or> d = CHR ''-''
                                              then ([d], r') else ([], r)) in
                             case scan_digits r1 of
                               None \<Rightarrow> None
                             | Some (ds, r') \<Rightarrow> Some (c # sg @ ds, r'))
                          else Some ([], s3)) of
                  None \<Rightarrow> None
                | Some (ep, s4) \<Rightarrow> Some (sign @ ip @ fp @ ep, s4))))"

definition maxNestingDepth :: nat where
  "maxNestingDepth = 10000"

fun parse_value :: "nat \<Rightarrow> nat \<Rightarrow> string \<Rightarrow> (json \<times> string) option"
  and parse_members :: "nat \<Rightarrow> nat \<Rightarrow> string \<Rightarrow> ((string \<times> json) list \<times> string) option"
  and parse_elements :: "nat \<Rightarrow> nat \<Rightarrow> string \<Rightarrow> (json list \<times> string) option"
where
  "parse_value 0 d s = None"
| "parse_value (Suc n) d s =
     (case s of
        [] \<Rightarrow> None
      | c # cs \<Rightarrow>
          if c = CHR ''{'' then
            (if maxNestingDepth \<le> d then None
             else (case skip_space cs of
                     [] \<Rightarrow> None
                   | c' # r \<Rightarrow>
                       if c' = CHR ''}'' then Some (JObject [], r)
                       else (case parse_members n (Suc d) (c' # r) of
                               None \<Rightarrow> None
                             | Some (ms, r') \<Rightarrow> Some (JObject ms, r'))))
          else if c = CHR ''['' then
            (if maxNestingDepth \<le> d then None
             else (case skip_space cs of
                     [] \<Rightarrow> None
                   | c' # r \<Rightarrow>
                       if c' = CHR '']'' then Some (JArray [], r)
                       else (case parse_elements n (Suc d) (c' # r) of
                               None \<Rightarrow> None
                             | Some (vs, r') \<Rightarrow> Some (JArray vs, r'))))
          else if c = dquote then
            (case scan_string cs of
               None \<Rightarrow> None
             | Some (str, r) \<Rightarrow> Some (JString str, r))
          else if c = CHR ''-'' \<or> is_digit c then
            (case scan_number s of
               None \<Rightarrow> None
             | Some (lit, r) \<Rightarrow> Some (JNumber lit, r))
          else if take 4 s = ''true'' then Some (JBool True, drop 4 s)
          else if take 5 s = ''false'' then Some (JBool False, drop 5 s)
          else if take 4 s = ''null'' then Some (JNull, drop 4 s)
          else None)"
| "parse_members 0 d s = None"
| "parse_members (Suc n) d s =
     (case s of
        [] \<Rightarrow> None
      | c # cs \<Rightarrow>
          if c \<noteq> dquote then None
          else (case scan_string cs of
                  None \<Rightarrow> None
                | Some (key, r) \<Rightarrow>
                    (case skip_space r of
                       [] \<Rightarrow> None
                     | c1 # r1 \<Rightarrow>
                         if c1 \<noteq> CHR '':'' then None
                         else (case parse_value n d (skip_space r1) of
                                 None \<Rightarrow> None
                               | Some (v, r2) \<Rightarrow>
                                   (case skip_space r2 of
                                      [] \<Rightarrow> None
                                    | c3 # r3 \<Rightarrow>
                                        if c3 = CHR ''}'' then Some ([(key, v)], r3)
                                        else if c3 = CHR '','' then
                                          (case parse_members n d (skip_space r3) of
                                             None \<Rightarrow> None
                                           | Some (ms, r4) \<Rightarrow> Some ((key, v) # ms, r4))
                                        else None)))))"
| "parse_elements 0 d s = None"
| "parse_elements (Suc n) d s =
     (case parse_value n d s of
        None \<Rightarrow> None
      | Some (v, r) \<Rightarrow>
          (case skip_space r of
             [] \<Rightarrow> None
           | c # r1 \<Rightarrow>
               if c = CHR '']'' then Some ([v], r1)
               else if c = CHR '','' then
                 (case parse_elements n d (skip_space r1) of
                    None \<Rightarrow> None
                  | Some (vs, r2) \<Rightarrow> Some (v # vs, r2))
               else None))"

definition json_parse :: "string \<Rightarrow> json option" where
  "json_parse data =
     (case parse_value (Suc (length data)) 0 (skip_space data) of
        None \<Rightarrow> None
      | Some (v, r) \<Rightarrow> if skip_space r = [] then Some v else None)"


subsection \<open>encoding/json: encoding a string\<close>

definition htmlSafe :: "nat \<Rightarrow> bool" where
  "htmlSafe b = (0x20 \<le> b \<and> b < 0x80 \<and> b \<noteq> 0x22 \<and> b \<noteq> 0x5C \<and> b \<noteq> 0x3C \<and> b \<noteq> 0x3E \<and> b \<noteq> 0x26)"

definition hex :: "nat \<Rightarrow> char" where
  "hex n = ''0123456789abcdef'' ! n"

definition encode_step :: "string \<Rightarrow> string \<times> string" where
  "encode_step s =
     (case s of
        [] \<Rightarrow> ([], [])
      | c # cs \<Rightarrow>
          let b = (of_char c :: nat) in
          if b < 0x80 then
            (if htmlSafe b then ([c], cs)
             else if c = backslash \<or> c = dquote then ([backslash, c], cs)
             else if b = 0x08 then ([backslash, CHR ''b''], cs)
             else if b = 0x0C then ([backslash, CHR ''f''], cs)
             else if b = 0x0A then ([backslash, CHR ''n''], cs)
             else if b = 0x0D then ([backslash, CHR ''r''], cs)
             else if b = 0x09 then ([backslash, CHR ''t''], cs)
             else ([backslash, CHR ''u'', CHR ''0'', CHR ''0'', hex (b div 16), hex (b mod 16)], cs))
          else (case DecodeRune s of
                  (r, n) \<Rightarrow>
                    if r = RuneError \<and> n = 1 then (backslash # ''ufffd'', cs)
                    else if r = 0x2028 \<or> r = 0x2029
                      then ([backslash, CHR ''u'', CHR ''2'', CHR ''0'', CHR ''2'', hex (r mod 16)],
                            drop n s)
                    else (take n s, drop n s)))"

lemma encode_step_consumes:
  "s \<noteq> [] \<Longrightarrow> encode_step s = (out, rest) \<Longrightarrow> length rest < length s"
  using DecodeRune_size_pos [of s]
  by (cases s) (auto simp: encode_step_def Let_def split: if_splits prod.splits)

function appendString_body :: "string \<Rightarrow> string" where
  "appendString_body s =
     (if s = [] then []
      else (case encode_step s of (out, rest) \<Rightarrow> out @ appendString_body rest))"
  by pat_completeness auto
termination
  by (relation "measure length") (auto intro: encode_step_consumes [OF _ sym])

declare appendString_body.simps [simp del]

definition appendString :: "string \<Rightarrow> string" where
  "appendString s = dquote # appendString_body s @ [dquote]"

text \<open>What a string becomes when it is encoded and decoded again.\<close>

definition coerce_step :: "string \<Rightarrow> string \<times> string" where
  "coerce_step s =
     (case s of
        [] \<Rightarrow> ([], [])
      | c # cs \<Rightarrow>
          if (of_char c :: nat) < 0x80 then ([c], cs)
          else (case DecodeRune s of
                  (r, n) \<Rightarrow>
                    if r = RuneError \<and> n = 1 then (EncodeRune RuneError, cs)
                    else (take n s, drop n s)))"

lemma coerce_step_consumes:
  "s \<noteq> [] \<Longrightarrow> coerce_step s = (out, rest) \<Longrightarrow> length rest < length s"
  using DecodeRune_size_pos [of s]
  by (cases s) (auto simp: coerce_step_def split: if_splits prod.splits)

function coerce_utf8 :: "string \<Rightarrow> string" where
  "coerce_utf8 s =
     (if s = [] then []
      else (case coerce_step s of (out, rest) \<Rightarrow> out @ coerce_utf8 rest))"
  by pat_completeness auto
termination
  by (relation "measure length") (auto intro: coerce_step_consumes [OF _ sym])

declare coerce_utf8.simps [simp del]

function ValidString :: "string \<Rightarrow> bool" where
  "ValidString s =
     (if s = [] then True
      else (case DecodeRune s of
              (r, n) \<Rightarrow> \<not> (r = RuneError \<and> n = 1) \<and> ValidString (drop n s)))"
  by pat_completeness auto
termination
proof (relation "measure length")
  show "wf (measure length)" by simp
next
  fix s :: string and r n
  assume "s \<noteq> []" "(r, n) = DecodeRune s"
  then have "0 < n"
    using DecodeRune_size_pos [of s] by (metis snd_conv)
  with \<open>s \<noteq> []\<close> show "(drop n s, s) \<in> measure length"
    by simp
qed

declare ValidString.simps [simp del]


lemma hex_val_hex: "k < 16 \<Longrightarrow> hex_val (hex k) = Some k"
proof -
  assume "k < 16"
  then have "k \<in> set [0..<16]"
    by simp
  then show ?thesis
    by (auto simp: upt_rec hex_def hex_val_def)
qed

lemma getu4_u00:
  assumes "b < 0x80"
  shows "getu4 (backslash # CHR ''u'' # CHR ''0'' # CHR ''0'' # hex (b div 16) # hex (b mod 16) # X)
           = Some b"
proof -
  have "b div 16 < 16" "b mod 16 < 16"
    using assms by auto
  then have "hex_val (hex (b div 16)) = Some (b div 16)" "hex_val (hex (b mod 16)) = Some (b mod 16)"
    by (simp_all only: hex_val_hex)
  moreover have "hex_val (CHR ''0'') = Some 0"
    by (simp add: hex_val_def)
  ultimately show ?thesis
    by (simp add: getu4_def)
qed

lemma ascii_char_eq: "(of_char c :: nat) = k \<Longrightarrow> k < 256 \<Longrightarrow> c = char_of k"
  by auto

lemma char_by_code: "(of_char c :: nat) = of_char d \<Longrightarrow> c = d"
  by (simp only: of_char_eq_iff)

lemma control_chars:
  "(of_char c :: nat) = 8 \<Longrightarrow> c = CHR 0x08"
  "(of_char c :: nat) = 12 \<Longrightarrow> c = CHR 0x0C"
  "(of_char c :: nat) = 10 \<Longrightarrow> c = CHR 0x0A"
  "(of_char c :: nat) = 13 \<Longrightarrow> c = CHR 0x0D"
  "(of_char c :: nat) = 9 \<Longrightarrow> c = CHR 0x09"
  by (rule char_by_code, simp)+

lemma unquote_encode_ascii:
  assumes "encode_step (c # cs) = (out, rest)" and "(of_char c :: nat) < 0x80"
  shows "rest = cs \<and> unquote_step (out @ X) = Emit [c] X"
proof -
  let ?b = "of_char c :: nat"
  consider (safe) "htmlSafe ?b"
    | (quote) "\<not> htmlSafe ?b" "c = backslash \<or> c = dquote"
    | (short) "\<not> htmlSafe ?b" "c \<noteq> backslash" "c \<noteq> dquote"
        "?b = 0x08 \<or> ?b = 0x0C \<or> ?b = 0x0A \<or> ?b = 0x0D \<or> ?b = 0x09"
    | (u) "\<not> htmlSafe ?b" "c \<noteq> backslash" "c \<noteq> dquote"
        "?b \<noteq> 0x08" "?b \<noteq> 0x0C" "?b \<noteq> 0x0A" "?b \<noteq> 0x0D" "?b \<noteq> 0x09"
    by blast
  then show ?thesis
  proof cases
    case safe
    then have "c \<noteq> dquote" "c \<noteq> backslash" "\<not> ?b < 0x20"
      by (auto simp: htmlSafe_def dquote_def backslash_def)
    with safe assms show ?thesis
      by (auto simp: encode_step_def unquote_step_def)
  next
    case quote
    with assms show ?thesis
      by (auto simp: encode_step_def unquote_step_def simple_escape_def dquote_def backslash_def)
  next
    case short
    from short(4) have "c = CHR 0x08 \<or> c = CHR 0x0C \<or> c = CHR 0x0A \<or> c = CHR 0x0D \<or> c = CHR 0x09"
      by (auto dest: control_chars)
    with short assms show ?thesis
      by (auto simp: encode_step_def unquote_step_def simple_escape_def dquote_def backslash_def)
  next
    case u
    from u assms have out: "out = [backslash, CHR ''u'', CHR ''0'', CHR ''0'', hex (?b div 16), hex (?b mod 16)]"
      and rest: "rest = cs"
      by (auto simp: encode_step_def Let_def)
    have g: "getu4 (out @ X) = Some ?b"
      unfolding out using getu4_u00 [OF assms(2)] by simp
    have "\<not> IsSurrogate ?b"
      using assms(2) by (simp add: IsSurrogate_def)
    moreover have "EncodeRune ?b = [c]"
      using assms(2) by (simp add: EncodeRune_def)
    ultimately have "unquote_step (out @ X) = Emit [c] X"
      using g by (simp add: unquote_step_def out backslash_def dquote_def)
    with rest show ?thesis by simp
  qed
qed


lemma DecodeRune_prefix:
  assumes "DecodeRune (c0 # p1) = (r, n)" and "\<not> (of_char c0 :: nat) < 0x80"
    and "\<not> (r = RuneError \<and> n = 1)"
  shows "n \<le> length (c0 # p1) \<and> DecodeRune (take n (c0 # p1) @ X) = (r, n)"
proof (cases "lead_info (of_char c0)")
  case None
  with assms show ?thesis
    by (simp add: DecodeRune_def Let_def)
next
  case (Some t)
  obtain sz lo hi where t: "t = (sz, lo, hi)"
    by (cases t)
  note li = Some [unfolded t]
  from DecodeRune_multi [OF assms(1,2) li] assms(3)
  consider c1 p2 where "p1 = c1 # p2" "sz = 2" "lo \<le> (of_char c1 :: nat)" "(of_char c1 :: nat) \<le> hi"
            "r = ((of_char c0 :: nat) mod 32) * 64 + (of_char c1 :: nat) mod 64" "n = 2"
        | c1 c2 p3 where "p1 = c1 # c2 # p3" "sz = 3" "lo \<le> (of_char c1 :: nat)" "(of_char c1 :: nat) \<le> hi"
            "0x80 \<le> (of_char c2 :: nat)" "(of_char c2 :: nat) \<le> 0xBF"
            "r = ((of_char c0 :: nat) mod 16) * 4096 + ((of_char c1 :: nat) mod 64) * 64
              + (of_char c2 :: nat) mod 64" "n = 3"
        | c1 c2 c3 p4 where "p1 = c1 # c2 # c3 # p4" "sz = 4" "lo \<le> (of_char c1 :: nat)" "(of_char c1 :: nat) \<le> hi"
            "0x80 \<le> (of_char c2 :: nat)" "(of_char c2 :: nat) \<le> 0xBF"
            "0x80 \<le> (of_char c3 :: nat)" "(of_char c3 :: nat) \<le> 0xBF"
            "r = ((of_char c0 :: nat) mod 8) * 262144 + ((of_char c1 :: nat) mod 64) * 4096
              + ((of_char c2 :: nat) mod 64) * 64 + (of_char c3 :: nat) mod 64" "n = 4"
    by blast
  then show ?thesis
  proof cases
    case 1
    with assms(2) li show ?thesis
      by (simp add: DecodeRune_def Let_def)
  next
    case 2
    with assms(2) li show ?thesis
      by (simp add: DecodeRune_def Let_def)
  next
    case 3
    with assms(2) li show ?thesis
      by (simp add: DecodeRune_def Let_def)
  qed
qed

lemma unquote_step_high:
  "\<not> (of_char c :: nat) < 0x80 \<Longrightarrow>
   unquote_step (c # cs) =
     (case DecodeRune (c # cs) of (r, n) \<Rightarrow> Emit (EncodeRune r) (drop n (c # cs)))"
  by (auto simp: unquote_step_def dquote_def backslash_def)

lemma unquote_step_u:
  "unquote_step (backslash # CHR ''u'' # es) =
     (case getu4 (backslash # CHR ''u'' # es) of
        None \<Rightarrow> Invalid
      | Some rr \<Rightarrow>
          let rest = drop 4 es in
          if IsSurrogate rr then
            (case getu4 rest of
               None \<Rightarrow> Emit (EncodeRune RuneError) rest
             | Some rr1 \<Rightarrow>
                 let dec = utf16_DecodeRune rr rr1 in
                 if dec \<noteq> RuneError then Emit (EncodeRune dec) (drop 6 rest)
                 else Emit (EncodeRune RuneError) rest)
          else Emit (EncodeRune rr) rest)"
  by (simp add: unquote_step_def dquote_def backslash_def Let_def split: option.splits)

lemma getu4_fffd: "getu4 (backslash # ''ufffd'' @ X) = Some RuneError"
  by (simp add: getu4_def hex_val_def RuneError_def)

lemma getu4_202:
  "k = 8 \<or> k = 9 \<Longrightarrow>
   getu4 ([backslash, CHR ''u'', CHR ''2'', CHR ''0'', CHR ''2'', hex k] @ X) = Some (0x2020 + k)"
  by (auto simp: getu4_def hex_val_def hex_def)

lemma unquote_encode_multi:
  assumes "encode_step (c # cs) = (out, rest)" and "\<not> (of_char c :: nat) < 0x80"
    and "coerce_step (c # cs) = (cout, rest')"
  shows "rest' = rest \<and> unquote_step (out @ X) = Emit cout X"
proof -
  obtain r n where d: "DecodeRune (c # cs) = (r, n)"
    by (cases "DecodeRune (c # cs)")
  consider (bad) "r = RuneError \<and> n = 1"
    | (sep) "\<not> (r = RuneError \<and> n = 1)" "r = 0x2028 \<or> r = 0x2029"
    | (plain) "\<not> (r = RuneError \<and> n = 1)" "r \<noteq> 0x2028" "r \<noteq> 0x2029"
    by blast
  then show ?thesis
  proof cases
    case bad
    with assms d have "out = backslash # ''ufffd''" "rest = cs" "cout = EncodeRune RuneError" "rest' = cs"
      by (auto simp: encode_step_def coerce_step_def Let_def)
    moreover have "\<not> IsSurrogate RuneError"
      by (simp add: IsSurrogate_def RuneError_def)
    ultimately show ?thesis
      using getu4_fffd [of X] by (simp add: unquote_step_u Let_def)
  next
    case sep
    from EncodeRune_DecodeRune [OF d] sep(1) have enc: "EncodeRune r = take n (c # cs)"
      by auto
    from sep(2) have k: "r mod 16 = 8 \<or> r mod 16 = 9" and r: "0x2020 + r mod 16 = r"
      by auto
    from assms d sep have "out = [backslash, CHR ''u'', CHR ''2'', CHR ''0'', CHR ''2'', hex (r mod 16)]"
        "rest = drop n (c # cs)" "cout = take n (c # cs)" "rest' = drop n (c # cs)"
      by (auto simp: encode_step_def coerce_step_def Let_def)
    moreover have "\<not> IsSurrogate r"
      using sep(2) by (auto simp: IsSurrogate_def)
    ultimately show ?thesis
      using getu4_202 [OF k, of X] enc by (simp add: unquote_step_u r Let_def)
  next
    case plain
    from EncodeRune_DecodeRune [OF d] plain(1) have enc: "EncodeRune r = take n (c # cs)"
      by auto
    from DecodeRune_prefix [OF d assms(2) plain(1), of X]
    have len: "n \<le> length (c # cs)" and pre: "DecodeRune (take n (c # cs) @ X) = (r, n)"
      by simp_all
    from DecodeRune_size_pos [of "c # cs"] d have "0 < n"
      by simp
    then obtain m where n: "n = Suc m"
      by (cases n) auto
    from assms d plain have o: "out = take n (c # cs)"
        "rest = drop n (c # cs)" "cout = take n (c # cs)" "rest' = drop n (c # cs)"
      by (auto simp: encode_step_def coerce_step_def Let_def)
    have "unquote_step (take n (c # cs) @ X) = Emit (EncodeRune r) (drop n (take n (c # cs) @ X))"
      using unquote_step_high [OF assms(2), of "take m cs @ X"] pre by (simp add: n)
    also have "drop n (take n (c # cs) @ X) = X"
      using len by simp
    finally show ?thesis
      using o enc by simp
  qed
qed

lemma unquote_encode_step:
  assumes "s \<noteq> []" and "encode_step s = (out, rest)" and "coerce_step s = (cout, rest')"
  shows "rest' = rest \<and> unquote_step (out @ X) = Emit cout X"
proof -
  obtain c cs where s: "s = c # cs"
    using assms(1) by (cases s) auto
  show ?thesis
  proof (cases "(of_char c :: nat) < 0x80")
    case True
    from assms(3) True have "cout = [c]" "rest' = cs"
      by (auto simp: coerce_step_def s)
    with unquote_encode_ascii [OF assms(2) [unfolded s] True, of X] show ?thesis
      by simp
  next
    case False
    from unquote_encode_multi [OF assms(2) [unfolded s] False assms(3) [unfolded s]]
    show ?thesis .
  qed
qed

lemma scan_string_appendString_body:
  "scan_string (appendString_body s @ dquote # tail) = Some (coerce_utf8 s, tail)"
proof (induction s rule: appendString_body.induct)
  case (1 s)
  show ?case
  proof (cases "s = []")
    case True
    then show ?thesis
      by (simp add: appendString_body.simps [of "[]"] coerce_utf8.simps [of "[]"]
          scan_string.simps [of "dquote # tail"] unquote_step_def)
  next
    case False
    obtain out rest where e: "encode_step s = (out, rest)"
      by (cases "encode_step s")
    obtain cout rest' where c: "coerce_step s = (cout, rest')"
      by (cases "coerce_step s")
    from unquote_encode_step [OF False e c, of "appendString_body rest @ dquote # tail"]
    have r: "rest' = rest"
      and u: "unquote_step (out @ appendString_body rest @ dquote # tail)
                = Emit cout (appendString_body rest @ dquote # tail)"
      by simp_all
    have ih: "scan_string (appendString_body rest @ dquote # tail) = Some (coerce_utf8 rest, tail)"
      using "1.IH" [OF False e [symmetric]] .
    show ?thesis
      using False e c r u ih
      by (simp add: appendString_body.simps [of s] coerce_utf8.simps [of s]
          scan_string.simps [of "out @ appendString_body rest @ dquote # tail"])
  qed
qed

lemma coerce_utf8_valid: "ValidString s \<Longrightarrow> coerce_utf8 s = s"
proof (induction s rule: coerce_utf8.induct)
  case (1 s)
  show ?case
  proof (cases "s = []")
    case True
    then show ?thesis by (simp add: coerce_utf8.simps [of "[]"])
  next
    case False
    then obtain c cs where s: "s = c # cs"
      by (cases s) auto
    obtain r n where d: "DecodeRune s = (r, n)"
      by (cases "DecodeRune s")
    from "1.prems" False d have ok: "\<not> (r = RuneError \<and> n = 1)" and v: "ValidString (drop n s)"
      by (simp_all add: ValidString.simps [of s])
    obtain cout rest where c: "coerce_step s = (cout, rest)"
      by (cases "coerce_step s")
    have "cout = take n s \<and> rest = drop n s"
    proof (cases "(of_char c :: nat) < 0x80")
      case True
      with d have "n = 1" by (auto simp: DecodeRune_def s Let_def)
      with c True show ?thesis by (auto simp: coerce_step_def s)
    next
      case False
      with c d ok show ?thesis by (auto simp: coerce_step_def s)
    qed
    with "1.IH" [OF False c [symmetric]] v c False show ?thesis
      by (simp add: coerce_utf8.simps [of s])
  qed
qed

subsection \<open>Reading the code from standard input (cmd/submit.go)\<close>

text \<open>
  \<^verbatim>\<open>bufio.Reader.ReadString('\n')\<close> on a stream whose remaining content is \<open>s\<close>:
  it returns the bytes up to and including the first newline and no error, or, when
  the stream ends before a newline, the bytes read so far together with the error
  \<^verbatim>\<open>io.EOF\<close>. The third component is what is left of the stream.
\<close>

definition newline :: char where
  "newline = CHR 0x0A"

definition ReadString :: "string \<Rightarrow> string \<times> bool \<times> string" where
  "ReadString s =
     (if newline \<in> set s
      then (takeWhile (\<lambda>c. c \<noteq> newline) s @ [newline], False,
            tl (dropWhile (\<lambda>c. c \<noteq> newline) s))
      else (s, True, []))"

text \<open>
  The loop of the standard-input branch:
  \<^verbatim>\<open>for { line, err := reader.ReadString('\n'); if err != nil { break };
        builder.WriteString(line) }\<close>
  It returns the builder and what is left of the stream.
\<close>

function read_stdin_loop :: "string \<Rightarrow> string \<Rightarrow> string \<times> string" where
  "read_stdin_loop s builder =
     (case ReadString s of
        (line, err, rest) \<Rightarrow>
          if err then (builder, rest)
          else read_stdin_loop rest (builder @ line))"
  by pat_completeness auto

lemma ReadString_consumes:
  assumes "ReadString s = (line, False, rest)"
  shows "length rest < length s"
proof -
  from assms have nl: "newline \<in> set s" and
      rest: "rest = tl (dropWhile (\<lambda>c. c \<noteq> newline) s)"
    by (auto simp: ReadString_def split: if_splits)
  from nl have "dropWhile (\<lambda>c. c \<noteq> newline) s \<noteq> []"
    by simp
  then have "length rest < length (dropWhile (\<lambda>c. c \<noteq> newline) s)"
    unfolding rest by (cases "dropWhile (\<lambda>c. c \<noteq> newline) s") auto
  also have "\<dots> \<le> length s"
    by (rule length_dropWhile_le)
  finally show ?thesis .
qed

termination read_stdin_loop
proof (relation "measure (\<lambda>(s, builder). length s)")
  show "wf (measure (\<lambda>(s, builder). length s))"
    by simp
next
  fix s builder :: string and x line y err rest
  assume "(line, y) = ReadString s" "(err, rest) = y" "\<not> err"
  then have "ReadString s = (line, False, rest)"
    by (metis (full_types))
  then show "((rest, builder @ line), (s, builder)) \<in> measure (\<lambda>(s, builder). length s)"
    by (simp add: ReadString_consumes)
qed

declare read_stdin_loop.simps [simp del]

definition read_stdin :: "string \<Rightarrow> string \<times> string" where
  "read_stdin s = read_stdin_loop s []"

text \<open>
  Claim C9 (code defect). The claim says that the code submitted from standard input
  is the complete content of standard input. The loop drops the line that
  \<^verbatim>\<open>ReadString\<close> returns together with \<^verbatim>\<open>io.EOF\<close>: on the
  input \<^verbatim>\<open>a\nb\<close> the stream is read to its end, but the code is
  \<^verbatim>\<open>a\n\<close>; on an input without any newline the code is empty.
\<close>

theorem read_stdin_drops_unterminated_line:
  "read_stdin (''a'' @ [newline] @ ''b'') = (''a'' @ [newline], []) \<and>
   read_stdin ''int main(){}'' = ([], [])"
  by (simp add: read_stdin_def read_stdin_loop.simps ReadString_def newline_def)


subsection \<open>Errors\<close>

datatype error =
    CreateError
  | NotFound
  | WriteError
  | ReadError
  | SyntaxError
  | UnmarshalTypeError
  | URLError
  | TransportError
  | BodyReadError
  | LoginFailed int string
  | FetchFailed int
  | NilURL
  | RedirectError

subsection \<open>encoding/json: decoding into Go values\<close>

definition saveError :: "error option \<Rightarrow> error option \<Rightarrow> error option" where
  "saveError saved e = (case saved of None \<Rightarrow> e | Some x \<Rightarrow> Some x)"

definition decode_string :: "json \<Rightarrow> string \<Rightarrow> string \<times> error option" where
  "decode_string j cur =
     (case j of
        JString s \<Rightarrow> (s, None)
      | JNull \<Rightarrow> (cur, None)
      | _ \<Rightarrow> (cur, Some UnmarshalTypeError))"

definition foldRune :: "nat \<Rightarrow> nat" where
  "foldRune r = (if r = 0x212A then 0x4B else if r = 0x17F then 0x53 else r)"

definition fold_step :: "string \<Rightarrow> string \<times> string" where
  "fold_step s =
     (case s of
        [] \<Rightarrow> ([], [])
      | c # cs \<Rightarrow>
          let b = (of_char c :: nat) in
          if b < 0x80 then ([if 97 \<le> b \<and> b \<le> 122 then char_of (b - 32) else c], cs)
          else (case DecodeRune s of (r, n) \<Rightarrow> (EncodeRune (foldRune r), drop n s)))"

lemma fold_step_consumes:
  "s \<noteq> [] \<Longrightarrow> fold_step s = (out, rest) \<Longrightarrow> length rest < length s"
  using DecodeRune_size_pos [of s]
  by (cases s) (auto simp: fold_step_def Let_def split: if_splits prod.splits)

function foldName :: "string \<Rightarrow> string" where
  "foldName s =
     (if s = [] then []
      else (case fold_step s of (out, rest) \<Rightarrow> out @ foldName rest))"
  by pat_completeness auto
termination
  by (relation "measure length") (auto intro: fold_step_consumes [OF _ sym])

declare foldName.simps [simp del]

definition find_field :: "string list \<Rightarrow> string \<Rightarrow> string option" where
  "find_field names key =
     (if key \<in> set names then Some key
      else find (\<lambda>name. foldName name = foldName key) names)"

primrec decode_object ::
  "string list \<Rightarrow> (string \<Rightarrow> json \<Rightarrow> 'a \<Rightarrow> 'a \<times> error option) \<Rightarrow> (string \<times> json) list \<Rightarrow>
   'a \<Rightarrow> 'a \<times> error option" where
  "decode_object names setf [] v = (v, None)"
| "decode_object names setf (m # ms) v =
     (case find_field names (fst m) of
        None \<Rightarrow> decode_object names setf ms v
      | Some f \<Rightarrow>
          (case setf f (snd m) v of
             (v', e) \<Rightarrow>
               (case decode_object names setf ms v' of
                  (v'', e') \<Rightarrow> (v'', saveError e e'))))"

definition decode_struct ::
  "string list \<Rightarrow> (string \<Rightarrow> json \<Rightarrow> 'a \<Rightarrow> 'a \<times> error option) \<Rightarrow> json \<Rightarrow> 'a \<Rightarrow> 'a \<times> error option" where
  "decode_struct names setf j v =
     (case j of
        JObject ms \<Rightarrow> decode_object names setf ms v
      | JNull \<Rightarrow> (v, None)
      | _ \<Rightarrow> (v, Some UnmarshalTypeError))"

definition Unmarshal :: "(json \<Rightarrow> 'a \<Rightarrow> 'a \<times> error option) \<Rightarrow> string \<Rightarrow> 'a \<Rightarrow> 'a \<times> error option" where
  "Unmarshal dec data v =
     (case json_parse data of
        None \<Rightarrow> (v, Some SyntaxError)
      | Some j \<Rightarrow> dec j v)"

subsection \<open>credentials/manager.go\<close>

record Credentials =
  Token :: string
  TokenId :: string

definition Credentials_fields :: "string list" where
  "Credentials_fields = [''token'', ''token_id'']"

definition set_Credentials_field :: "string \<Rightarrow> json \<Rightarrow> Credentials \<Rightarrow> Credentials \<times> error option" where
  "set_Credentials_field f j c =
     (if f = ''token'' then (case decode_string j (Token c) of (s, e) \<Rightarrow> (c\<lparr>Token := s\<rparr>, e))
      else (case decode_string j (TokenId c) of (s, e) \<Rightarrow> (c\<lparr>TokenId := s\<rparr>, e)))"

definition decode_Credentials :: "json \<Rightarrow> Credentials \<Rightarrow> Credentials \<times> error option" where
  "decode_Credentials = decode_struct Credentials_fields set_Credentials_field"

definition Marshal_Credentials :: "Credentials \<Rightarrow> string" where
  "Marshal_Credentials c =
     ''{'' @ [dquote] @ ''token'' @ [dquote] @ '':'' @ appendString (Token c) @
     '','' @ [dquote] @ ''token_id'' @ [dquote] @ '':'' @ appendString (TokenId c) @ ''}''"

record filesystem =
  files :: "string \<Rightarrow> string option"
  usable_dir :: "string \<Rightarrow> bool"
  writable :: "string \<Rightarrow> bool"
  readable :: "string \<Rightarrow> bool"

record xdg =
  ConfigHome :: string
  ConfigDirs :: "string list"

definition config_bases :: "xdg \<Rightarrow> string list" where
  "config_bases x = ConfigHome x # ConfigDirs x"

definition cred_dir :: "string \<Rightarrow> string" where
  "cred_dir base = base @ ''/syojctl''"

definition cred_path :: "string \<Rightarrow> string" where
  "cred_path base = base @ ''/syojctl/credentials.json''"

definition ConfigFile :: "xdg \<Rightarrow> filesystem \<Rightarrow> error + string" where
  "ConfigFile x fs =
     (case find (\<lambda>base. usable_dir fs (cred_dir base)) (config_bases x) of
        None \<Rightarrow> Inl CreateError
      | Some base \<Rightarrow> Inr (cred_path base))"

definition SearchConfigFile :: "xdg \<Rightarrow> filesystem \<Rightarrow> error + string" where
  "SearchConfigFile x fs =
     (case find (\<lambda>base. files fs (cred_path base) \<noteq> None) (config_bases x) of
        None \<Rightarrow> Inl NotFound
      | Some base \<Rightarrow> Inr (cred_path base))"

definition WriteFile :: "string \<Rightarrow> string \<Rightarrow> filesystem \<Rightarrow> error option \<times> filesystem" where
  "WriteFile name data fs =
     (if writable fs name then (None, fs\<lparr>files := (files fs)(name \<mapsto> data)\<rparr>)
      else (Some WriteError, fs))"

definition ReadFile :: "string \<Rightarrow> filesystem \<Rightarrow> error + string" where
  "ReadFile name fs =
     (case files fs name of
        None \<Rightarrow> Inl ReadError
      | Some data \<Rightarrow> if readable fs name then Inr data else Inl ReadError)"

definition Save :: "xdg \<Rightarrow> Credentials \<Rightarrow> filesystem \<Rightarrow> error option \<times> filesystem" where
  "Save x c fs =
     (case ConfigFile x fs of
        Inl err \<Rightarrow> (Some err, fs)
      | Inr configFilePath \<Rightarrow> WriteFile configFilePath (Marshal_Credentials c) fs)"

definition Load :: "xdg \<Rightarrow> filesystem \<Rightarrow> error + Credentials" where
  "Load x fs =
     (case SearchConfigFile x fs of
        Inl err \<Rightarrow> Inl err
      | Inr configFilePath \<Rightarrow>
          (case ReadFile configFilePath fs of
             Inl err \<Rightarrow> Inl err
           | Inr data \<Rightarrow>
               (case Unmarshal decode_Credentials data \<lparr>Token = [], TokenId = []\<rparr> of
                  (creds, Some err) \<Rightarrow> Inl err
                | (creds, None) \<Rightarrow> Inr creds)))"

lemma scan_string_plain:
  "scan_string (''token'' @ dquote # tail) = Some (''token'', tail)"
  "scan_string (''token_id'' @ dquote # tail) = Some (''token_id'', tail)"
  by (simp_all add: scan_string.simps unquote_step_def dquote_def backslash_def)

lemma scan_string_appendString:
  "scan_string (appendString_body s @ dquote # tail) = Some (coerce_utf8 s, tail)"
  by (rule scan_string_appendString_body)

lemma parse_Marshal_Credentials:
  "json_parse (Marshal_Credentials c) =
     Some (JObject [(''token'', JString (coerce_utf8 (Token c))),
                    (''token_id'', JString (coerce_utf8 (TokenId c)))])"
proof -
  let ?t = "appendString_body (Token c)" and ?i = "appendString_body (TokenId c)"
  let ?tail2 = "dquote # ?i @ dquote # ''}''"
  let ?m2 = "dquote # ''token_id'' @ dquote # '':'' @ ?tail2"
  let ?m1 = "dquote # ''token'' @ dquote # '':'' @ dquote # ?t @ dquote # '','' @ ?m2"
  have data: "Marshal_Credentials c = ''{'' @ ?m1"
    by (simp add: Marshal_Credentials_def appendString_def)
  have v2: "parse_value (Suc n) d ?tail2 = Some (JString (coerce_utf8 (TokenId c)), ''}'')" for n d
    using scan_string_appendString [of "TokenId c" "''}''"]
    by (simp add: dquote_def)
  have m2: "parse_members (Suc (Suc n)) d ?m2
              = Some ([(''token_id'', JString (coerce_utf8 (TokenId c)))], [])" for n d
    using scan_string_plain(2) [of "'':'' @ ?tail2"] v2 [of n d]
    by (simp add: skip_space_def isSpace_def dquote_def)
  have v1: "parse_value (Suc n) d (dquote # ?t @ dquote # '','' @ ?m2)
              = Some (JString (coerce_utf8 (Token c)), '','' @ ?m2)" for n d
    using scan_string_appendString [of "Token c" "'','' @ ?m2"]
    by (simp add: dquote_def)
  have m1: "parse_members (Suc (Suc (Suc n))) d ?m1
              = Some ([(''token'', JString (coerce_utf8 (Token c))),
                       (''token_id'', JString (coerce_utf8 (TokenId c)))], [])" for n d
    using scan_string_plain(1) [of "'':'' @ dquote # ?t @ dquote # '','' @ ?m2"]
      v1 [of "Suc n" d] m2 [of n d]
    by (simp add: skip_space_def isSpace_def dquote_def)
  have "4 \<le> length (Marshal_Credentials c)"
    unfolding data by simp
  then obtain k where "length (Marshal_Credentials c) = 4 + k"
    using le_Suc_ex by blast
  then have n: "length (Marshal_Credentials c) = Suc (Suc (Suc (Suc k)))"
    by simp
  have "parse_value (Suc (length (Marshal_Credentials c))) 0 (''{'' @ ?m1)
          = Some (JObject [(''token'', JString (coerce_utf8 (Token c))),
                       (''token_id'', JString (coerce_utf8 (TokenId c)))], [])"
    unfolding n using m1 [of "Suc k" "Suc 0"]
    by (simp add: skip_space_def isSpace_def dquote_def maxNestingDepth_def)
  then show ?thesis
    unfolding json_parse_def data [symmetric]
    by (simp add: skip_space_def isSpace_def data)
qed


lemma decode_Credentials_pair:
  "decode_Credentials (JObject [(''token'', JString a), (''token_id'', JString b)])
     \<lparr>Token = [], TokenId = []\<rparr> = (\<lparr>Token = a, TokenId = b\<rparr>, None)"
  by (simp add: decode_Credentials_def decode_struct_def find_field_def Credentials_fields_def
      set_Credentials_field_def decode_string_def saveError_def)

lemma Unmarshal_Marshal_Credentials:
  "Unmarshal decode_Credentials (Marshal_Credentials c) \<lparr>Token = [], TokenId = []\<rparr> =
     (\<lparr>Token = coerce_utf8 (Token c), TokenId = coerce_utf8 (TokenId c)\<rparr>, None)"
  by (simp add: Unmarshal_def parse_Marshal_Credentials decode_Credentials_pair)

lemma cred_path_inj: "cred_path a = cred_path b \<Longrightarrow> a = b"
  by (simp add: cred_path_def)

lemma find_agree:
  assumes "find P xs = Some b" and "Q b"
    and "\<And>b'. b' \<in> set xs \<Longrightarrow> Q b' \<Longrightarrow> b' \<noteq> b \<Longrightarrow> P b'"
  shows "find Q xs = Some b"
  using assms
proof (induction xs)
  case Nil
  then show ?case by simp
next
  case (Cons a xs)
  show ?case
  proof (cases "P a")
    case True
    with Cons.prems(1) have "a = b" by simp
    with Cons.prems(2) show ?thesis by simp
  next
    case False
    with Cons.prems(1) have f: "find P xs = Some b" by simp
    then have "P b" by (auto simp: find_Some_iff)
    with False have ab: "a \<noteq> b" by auto
    have "\<not> Q a"
      using Cons.prems(3) [of a] False ab by auto
    moreover have "find Q xs = Some b"
      using Cons.IH [OF f Cons.prems(2)] Cons.prems(3) by auto
    ultimately show ?thesis by simp
  qed
qed

lemma Save_Load_coerce:
  assumes wf: "\<forall>base \<in> set (config_bases x).
                 files fs (cred_path base) \<noteq> None \<longrightarrow> usable_dir fs (cred_dir base)"
    and save: "Save x c fs = (None, fs')"
    and rd: "Load x fs' \<noteq> Inl ReadError"
  shows "Load x fs' = Inr \<lparr>Token = coerce_utf8 (Token c), TokenId = coerce_utf8 (TokenId c)\<rparr>"
proof -
  from save obtain base where
      fnd: "find (\<lambda>base. usable_dir fs (cred_dir base)) (config_bases x) = Some base"
    and fs': "fs' = fs\<lparr>files := (files fs)(cred_path base \<mapsto> Marshal_Credentials c)\<rparr>"
    by (auto simp: Save_def ConfigFile_def WriteFile_def split: option.splits if_splits)
  have "find (\<lambda>b. files fs' (cred_path b) \<noteq> None) (config_bases x) = Some base"
  proof (rule find_agree [OF fnd])
    show "files fs' (cred_path base) \<noteq> None"
      by (simp add: fs')
  next
    fix b'
    assume b': "b' \<in> set (config_bases x)" "files fs' (cred_path b') \<noteq> None" "b' \<noteq> base"
    then have "cred_path b' \<noteq> cred_path base"
      using cred_path_inj by blast
    with b'(2) have "files fs (cred_path b') \<noteq> None"
      by (simp add: fs')
    with wf b'(1) show "usable_dir fs (cred_dir b')"
      by blast
  qed
  then have search: "SearchConfigFile x fs' = Inr (cred_path base)"
    by (simp add: SearchConfigFile_def)
  have content: "files fs' (cred_path base) = Some (Marshal_Credentials c)"
    by (simp add: fs')
  from rd search content have "readable fs' (cred_path base)"
    by (auto simp: Load_def ReadFile_def split: if_splits)
  with content have "ReadFile (cred_path base) fs' = Inr (Marshal_Credentials c)"
    by (simp add: ReadFile_def)
  with search show ?thesis
    by (simp add: Load_def Unmarshal_Marshal_Credentials)
qed

definition home_xdg :: xdg where
  "home_xdg = \<lparr>ConfigHome = ''/home/u/.config'', ConfigDirs = [''/etc/xdg'']\<rparr>"

definition fs_with :: "string option \<Rightarrow> filesystem" where
  "fs_with content =
     \<lparr>files = (\<lambda>name. if name = cred_path ''/home/u/.config'' then content else None),
      usable_dir = (\<lambda>d. True), writable = (\<lambda>name. True), readable = (\<lambda>name. True)\<rparr>"

lemma Save_fs_with:
  "Save home_xdg c (fs_with old) = (None, fs_with (Some (Marshal_Credentials c)))"
  by (auto simp: Save_def ConfigFile_def WriteFile_def home_xdg_def config_bases_def fs_with_def)

lemma Load_fs_with:
  "Load home_xdg (fs_with (Some data)) =
     (case Unmarshal decode_Credentials data \<lparr>Token = [], TokenId = []\<rparr> of
        (creds, Some err) \<Rightarrow> Inl err
      | (creds, None) \<Rightarrow> Inr creds)"
  by (simp add: Load_def SearchConfigFile_def ReadFile_def home_xdg_def config_bases_def
      fs_with_def)

lemma replacement_bytes:
  "char_of (239 :: nat) = CHR 0xEF" "char_of (191 :: nat) = CHR 0xBF" "char_of (189 :: nat) = CHR 0xBD"
  by (rule char_by_code, simp)+

lemma EncodeRune_RuneError: "EncodeRune RuneError = [CHR 0xEF, CHR 0xBF, CHR 0xBD]"
  by (simp add: EncodeRune_def RuneError_def replacement_bytes)

lemma DecodeRune_invalid_byte: "DecodeRune [CHR 0xFF] = (RuneError, 1)"
  by (simp add: DecodeRune_def lead_info_def)

lemma coerce_utf8_invalid_byte: "coerce_utf8 [CHR 0xFF] = [CHR 0xEF, CHR 0xBF, CHR 0xBD]"
  by (simp add: coerce_utf8.simps [of "[CHR 0xFF]"] coerce_utf8.simps [of "[]"] coerce_step_def
      DecodeRune_invalid_byte EncodeRune_RuneError)

lemma coerce_utf8_ascii: "coerce_utf8 ''a'' = ''a''"
  by (simp add: coerce_utf8.simps [of "''a''"] coerce_utf8.simps [of "[]"] coerce_step_def)

text \<open>Claim C1, as stated, fails: a record with two non-empty fields, one of which is
  not valid UTF-8, does not come back equal. \<^verbatim>\<open>json.Marshal\<close> writes the byte
  \<^verbatim>\<open>0xFF\<close> as \<^verbatim>\<open>the escape for U+FFFD\<close>, and \<^verbatim>\<open>Load\<close> returns the three bytes of
  U+FFFD in its place.\<close>

theorem Save_Load_invalid_utf8:
  "Token \<lparr>Token = [CHR 0xFF], TokenId = ''a''\<rparr> \<noteq> [] \<and>
   TokenId \<lparr>Token = [CHR 0xFF], TokenId = ''a''\<rparr> \<noteq> [] \<and>
   Load home_xdg (snd (Save home_xdg \<lparr>Token = [CHR 0xFF], TokenId = ''a''\<rparr> (fs_with None)))
     = Inr \<lparr>Token = [CHR 0xEF, CHR 0xBF, CHR 0xBD], TokenId = ''a''\<rparr>"
  by (simp add: Save_fs_with Load_fs_with Unmarshal_Marshal_Credentials
      coerce_utf8_invalid_byte coerce_utf8_ascii)

text \<open>Claim C1, amended: for every record whose two fields are valid UTF-8 (empty or
  not), \<^verbatim>\<open>Save\<close> followed by \<^verbatim>\<open>Load\<close> returns an equal record, on every file
  system where a credentials file lies only in a directory that exists and the written file
  can be read back.\<close>

theorem Save_Load_roundtrip:
  assumes "\<forall>base \<in> set (config_bases x).
             files fs (cred_path base) \<noteq> None \<longrightarrow> usable_dir fs (cred_dir base)"
    and "Save x c fs = (None, fs')"
    and "Load x fs' \<noteq> Inl ReadError"
    and "ValidString (Token c)" and "ValidString (TokenId c)"
  shows "Load x fs' = Inr c"
  using Save_Load_coerce [OF assms(1-3)] assms(4,5)
  by (simp add: coerce_utf8_valid)


lemma ValidString_ascii:
  "ValidString ''abc''" "ValidString ''def''"
  by (simp_all add: ValidString.simps DecodeRune_def RuneError_def)

theorem Save_Load_roundtrip_witness:
  "Save home_xdg \<lparr>Token = ''abc'', TokenId = ''def''\<rparr> (fs_with (Some ''{}''))
     = (None, fs_with (Some (Marshal_Credentials \<lparr>Token = ''abc'', TokenId = ''def''\<rparr>))) \<and>
   ValidString ''abc'' \<and> ValidString ''def'' \<and>
   Load home_xdg (fs_with (Some (Marshal_Credentials \<lparr>Token = ''abc'', TokenId = ''def''\<rparr>)))
     = Inr \<lparr>Token = ''abc'', TokenId = ''def''\<rparr>"
proof -
  let ?c = "\<lparr>Token = ''abc'', TokenId = ''def''\<rparr>"
  have wf: "\<forall>base \<in> set (config_bases home_xdg).
      files (fs_with (Some ''{}'')) (cred_path base) \<noteq> None \<longrightarrow>
      usable_dir (fs_with (Some ''{}'')) (cred_dir base)"
    by (simp add: fs_with_def)
  have rd: "Load home_xdg (fs_with (Some (Marshal_Credentials ?c))) \<noteq> Inl ReadError"
    by (simp add: Load_fs_with Unmarshal_Marshal_Credentials)
  show ?thesis
    using Save_Load_roundtrip [OF wf Save_fs_with rd] ValidString_ascii
    by (simp add: Save_fs_with)
qed


subsection \<open>Go values of the other kinds\<close>

definition digit_value :: "string \<Rightarrow> nat" where
  "digit_value ds = foldl (\<lambda>acc c. acc * 10 + ((of_char c :: nat) - 48)) 0 ds"

definition ParseInt :: "string \<Rightarrow> int option" where
  "ParseInt lit =
     (case lit of
        [] \<Rightarrow> None
      | c # cs \<Rightarrow>
          let (neg, ds) = (if c = CHR ''-'' then (True, cs) else (False, lit));
              n = (if neg then - int (digit_value ds) else int (digit_value ds)) in
          if ds \<noteq> [] \<and> list_all is_digit ds \<and> - (2 ^ 63) \<le> n \<and> n < 2 ^ 63
          then Some n else None)"

definition decode_int :: "json \<Rightarrow> int \<Rightarrow> int \<times> error option" where
  "decode_int j cur =
     (case j of
        JNumber lit \<Rightarrow>
          (case ParseInt lit of
             Some n \<Rightarrow> (n, None)
           | None \<Rightarrow> (cur, Some UnmarshalTypeError))
      | JNull \<Rightarrow> (cur, None)
      | _ \<Rightarrow> (cur, Some UnmarshalTypeError))"

definition decode_bool :: "json \<Rightarrow> bool \<Rightarrow> bool \<times> error option" where
  "decode_bool j cur =
     (case j of
        JBool b \<Rightarrow> (b, None)
      | JNull \<Rightarrow> (cur, None)
      | _ \<Rightarrow> (cur, Some UnmarshalTypeError))"

record 'a slice =
  elems :: "'a list"
  spare :: "'a list"

definition nil :: "'a slice" where
  "nil = \<lparr>elems = [], spare = []\<rparr>"

primrec decode_elements ::
  "(json \<Rightarrow> 'a \<Rightarrow> 'a \<times> error option) \<Rightarrow> 'a \<Rightarrow> json list \<Rightarrow> 'a list \<Rightarrow> 'a list \<times> error option" where
  "decode_elements dec zero [] backing = ([], None)"
| "decode_elements dec zero (j # js) backing =
     (case dec j (case backing of [] \<Rightarrow> zero | b # _ \<Rightarrow> b) of
        (v, e) \<Rightarrow>
          (case decode_elements dec zero js (tl backing) of
             (vs, e') \<Rightarrow> (v # vs, saveError e e')))"

definition decode_slice ::
  "(json \<Rightarrow> 'a \<Rightarrow> 'a \<times> error option) \<Rightarrow> 'a \<Rightarrow> json \<Rightarrow> 'a slice \<Rightarrow> 'a slice \<times> error option" where
  "decode_slice dec zero j cur =
     (case j of
        JArray js \<Rightarrow>
          if js = [] then (nil, None)
          else (case decode_elements dec zero js (elems cur @ spare cur) of
                  (vs, e) \<Rightarrow>
                    (\<lparr>elems = vs, spare = drop (length js) (elems cur @ spare cur)\<rparr>, e))
      | JNull \<Rightarrow> (nil, None)
      | _ \<Rightarrow> (cur, Some UnmarshalTypeError))"

definition store :: "('v \<Rightarrow> 'r) \<Rightarrow> 'v \<times> error option \<Rightarrow> 'r \<times> error option" where
  "store put r = (put (fst r), snd r)"

subsection \<open>api/client.go: the data\<close>

record LoginResponse =
  Message :: string

definition decode_LoginResponse :: "json \<Rightarrow> LoginResponse \<Rightarrow> LoginResponse \<times> error option" where
  "decode_LoginResponse =
     decode_struct [''message'']
       (\<lambda>f j r. store (\<lambda>v. r\<lparr>Message := v\<rparr>) (decode_string j (Message r)))"

record Tag =
  tag_ID :: int
  tag_Name :: string

record Language =
  lang_ID :: int
  lang_Name :: string
  lang_Value :: string
  lang_Highlight :: string

record Author =
  DisplayName :: string

record TestCase =
  Input :: string
  Output :: string

record TestCaseGroup =
  group_TestCases :: "TestCase slice"

record Section =
  sec_ID :: int
  sec_Title :: string
  sec_Content :: string
  sec_Order :: int

record Problem =
  ID :: string
  Title :: string
  Description :: string
  Difficulty :: string
  MemoryLimit :: int
  TimeLimit :: int
  Notes :: string
  Tags :: "Tag slice"
  AllowedLanguages :: "Language slice"
  Author :: Author
  TestCases :: "TestCaseGroup slice"
  ProblemSection :: "Section slice"
  AllowSubmit :: bool

definition zero_Tag :: Tag where
  "zero_Tag = \<lparr>tag_ID = 0, tag_Name = []\<rparr>"

definition zero_Language :: Language where
  "zero_Language = \<lparr>lang_ID = 0, lang_Name = [], lang_Value = [], lang_Highlight = []\<rparr>"

definition zero_Author :: Author where
  "zero_Author = \<lparr>DisplayName = []\<rparr>"

definition zero_TestCase :: TestCase where
  "zero_TestCase = \<lparr>Input = [], Output = []\<rparr>"

definition zero_TestCaseGroup :: TestCaseGroup where
  "zero_TestCaseGroup = \<lparr>group_TestCases = nil\<rparr>"

definition zero_Section :: Section where
  "zero_Section = \<lparr>sec_ID = 0, sec_Title = [], sec_Content = [], sec_Order = 0\<rparr>"

definition zero_Problem :: Problem where
  "zero_Problem =
     \<lparr>ID = [], Title = [], Description = [], Difficulty = [], MemoryLimit = 0, TimeLimit = 0,
      Notes = [], Tags = nil, AllowedLanguages = nil, Author = zero_Author, TestCases = nil,
      ProblemSection = nil, AllowSubmit = False\<rparr>"

definition Tag_fields :: "string list" where
  "Tag_fields = [''id'', ''name'']"

definition set_Tag_field :: "string \<Rightarrow> json \<Rightarrow> Tag \<Rightarrow> Tag \<times> error option" where
  "set_Tag_field f j t =
     (if f = ''id'' then store (\<lambda>v. t\<lparr>tag_ID := v\<rparr>) (decode_int j (tag_ID t))
      else store (\<lambda>v. t\<lparr>tag_Name := v\<rparr>) (decode_string j (tag_Name t)))"

definition decode_Tag :: "json \<Rightarrow> Tag \<Rightarrow> Tag \<times> error option" where
  "decode_Tag = decode_struct Tag_fields set_Tag_field"

definition Language_fields :: "string list" where
  "Language_fields = [''id'', ''name'', ''value'', ''highlight'']"

definition set_Language_field :: "string \<Rightarrow> json \<Rightarrow> Language \<Rightarrow> Language \<times> error option" where
  "set_Language_field f j l =
     (if f = ''id'' then store (\<lambda>v. l\<lparr>lang_ID := v\<rparr>) (decode_int j (lang_ID l))
      else if f = ''name'' then store (\<lambda>v. l\<lparr>lang_Name := v\<rparr>) (decode_string j (lang_Name l))
      else if f = ''value'' then store (\<lambda>v. l\<lparr>lang_Value := v\<rparr>) (decode_string j (lang_Value l))
      else store (\<lambda>v. l\<lparr>lang_Highlight := v\<rparr>) (decode_string j (lang_Highlight l)))"

definition decode_Language :: "json \<Rightarrow> Language \<Rightarrow> Language \<times> error option" where
  "decode_Language = decode_struct Language_fields set_Language_field"

definition Author_fields :: "string list" where
  "Author_fields = [''displayName'']"

definition set_Author_field :: "string \<Rightarrow> json \<Rightarrow> Author \<Rightarrow> Author \<times> error option" where
  "set_Author_field f j a = store (\<lambda>v. a\<lparr>DisplayName := v\<rparr>) (decode_string j (DisplayName a))"

definition decode_Author :: "json \<Rightarrow> Author \<Rightarrow> Author \<times> error option" where
  "decode_Author = decode_struct Author_fields set_Author_field"

definition TestCase_fields :: "string list" where
  "TestCase_fields = [''input'', ''output'']"

definition set_TestCase_field :: "string \<Rightarrow> json \<Rightarrow> TestCase \<Rightarrow> TestCase \<times> error option" where
  "set_TestCase_field f j t =
     (if f = ''input'' then store (\<lambda>v. t\<lparr>Input := v\<rparr>) (decode_string j (Input t))
      else store (\<lambda>v. t\<lparr>Output := v\<rparr>) (decode_string j (Output t)))"

definition decode_TestCase :: "json \<Rightarrow> TestCase \<Rightarrow> TestCase \<times> error option" where
  "decode_TestCase = decode_struct TestCase_fields set_TestCase_field"

definition TestCaseGroup_fields :: "string list" where
  "TestCaseGroup_fields = [''testCases'']"

definition set_TestCaseGroup_field ::
  "string \<Rightarrow> json \<Rightarrow> TestCaseGroup \<Rightarrow> TestCaseGroup \<times> error option" where
  "set_TestCaseGroup_field f j g =
     store (\<lambda>v. g\<lparr>group_TestCases := v\<rparr>)
       (decode_slice decode_TestCase zero_TestCase j (group_TestCases g))"

definition decode_TestCaseGroup :: "json \<Rightarrow> TestCaseGroup \<Rightarrow> TestCaseGroup \<times> error option" where
  "decode_TestCaseGroup = decode_struct TestCaseGroup_fields set_TestCaseGroup_field"

definition Section_fields :: "string list" where
  "Section_fields = [''id'', ''title'', ''content'', ''order'']"

definition set_Section_field :: "string \<Rightarrow> json \<Rightarrow> Section \<Rightarrow> Section \<times> error option" where
  "set_Section_field f j s =
     (if f = ''id'' then store (\<lambda>v. s\<lparr>sec_ID := v\<rparr>) (decode_int j (sec_ID s))
      else if f = ''title'' then store (\<lambda>v. s\<lparr>sec_Title := v\<rparr>) (decode_string j (sec_Title s))
      else if f = ''content'' then store (\<lambda>v. s\<lparr>sec_Content := v\<rparr>) (decode_string j (sec_Content s))
      else store (\<lambda>v. s\<lparr>sec_Order := v\<rparr>) (decode_int j (sec_Order s)))"

definition decode_Section :: "json \<Rightarrow> Section \<Rightarrow> Section \<times> error option" where
  "decode_Section = decode_struct Section_fields set_Section_field"

definition Problem_fields :: "string list" where
  "Problem_fields =
     [''id'', ''title'', ''description'', ''difficulty'', ''memoryLimit'', ''timeLimit'', ''notes'',
      ''tags'', ''allowedLanguages'', ''author'', ''testCases'', ''ProblemSection'', ''allowSubmit'']"

definition set_Problem_field :: "string \<Rightarrow> json \<Rightarrow> Problem \<Rightarrow> Problem \<times> error option" where
  "set_Problem_field f j p =
     (if f = ''id'' then store (\<lambda>v. p\<lparr>ID := v\<rparr>) (decode_string j (ID p))
      else if f = ''title'' then store (\<lambda>v. p\<lparr>Title := v\<rparr>) (decode_string j (Title p))
      else if f = ''description''
        then store (\<lambda>v. p\<lparr>Description := v\<rparr>) (decode_string j (Description p))
      else if f = ''difficulty''
        then store (\<lambda>v. p\<lparr>Difficulty := v\<rparr>) (decode_string j (Difficulty p))
      else if f = ''memoryLimit''
        then store (\<lambda>v. p\<lparr>MemoryLimit := v\<rparr>) (decode_int j (MemoryLimit p))
      else if f = ''timeLimit'' then store (\<lambda>v. p\<lparr>TimeLimit := v\<rparr>) (decode_int j (TimeLimit p))
      else if f = ''notes'' then store (\<lambda>v. p\<lparr>Notes := v\<rparr>) (decode_string j (Notes p))
      else if f = ''tags''
        then store (\<lambda>v. p\<lparr>Tags := v\<rparr>) (decode_slice decode_Tag zero_Tag j (Tags p))
      else if f = ''allowedLanguages''
        then store (\<lambda>v. p\<lparr>AllowedLanguages := v\<rparr>)
               (decode_slice decode_Language zero_Language j (AllowedLanguages p))
      else if f = ''author'' then store (\<lambda>v. p\<lparr>Author := v\<rparr>) (decode_Author j (Author p))
      else if f = ''testCases''
        then store (\<lambda>v. p\<lparr>TestCases := v\<rparr>)
               (decode_slice decode_TestCaseGroup zero_TestCaseGroup j (TestCases p))
      else if f = ''ProblemSection''
        then store (\<lambda>v. p\<lparr>ProblemSection := v\<rparr>)
               (decode_slice decode_Section zero_Section j (ProblemSection p))
      else store (\<lambda>v. p\<lparr>AllowSubmit := v\<rparr>) (decode_bool j (AllowSubmit p)))"

definition decode_Problem :: "json \<Rightarrow> Problem \<Rightarrow> Problem \<times> error option" where
  "decode_Problem = decode_struct Problem_fields set_Problem_field"

lemma json_parse_braces: "json_parse ''{}'' = Some (JObject [])"
  by (simp add: json_parse_def skip_space_def isSpace_def dquote_def is_digit_def
      maxNestingDepth_def)

subsection \<open>net/url and net/http\<close>

record URL =
  Scheme :: string
  Host :: string
  Path :: string
  ForceQuery :: bool
  RawQuery :: string
  Fragment :: string

definition Cut :: "string \<Rightarrow> char \<Rightarrow> string \<times> string" where
  "Cut s sep = (takeWhile (\<lambda>c. c \<noteq> sep) s, drop 1 (dropWhile (\<lambda>c. c \<noteq> sep) s))"

definition stringContainsCTLByte :: "string \<Rightarrow> bool" where
  "stringContainsCTLByte s = list_ex (\<lambda>c. (of_char c :: nat) < 0x20 \<or> (of_char c :: nat) = 0x7F) s"

fun unescape :: "string \<Rightarrow> string option" where
  "unescape [] = Some []"
| "unescape (c # cs) =
     (if c = CHR ''%'' then
        (case cs of
           h1 # h2 # r \<Rightarrow>
             (case (hex_val h1, hex_val h2) of
                (Some a, Some b) \<Rightarrow>
                  (case unescape r of
                     None \<Rightarrow> None
                   | Some t \<Rightarrow> Some (char_of (a * 16 + b) # t))
              | _ \<Rightarrow> None)
         | _ \<Rightarrow> None)
      else (case unescape cs of None \<Rightarrow> None | Some t \<Rightarrow> Some (c # t)))"

text \<open>\<^verbatim>\<open>url.Parse\<close> on the addresses this program builds, which all begin with its
  base address \<^verbatim>\<open>https://syoj.org\<close>: the fragment is cut at the first \<^verbatim>\<open>#\<close>, a
  control character before it is refused, the query is cut at the first \<^verbatim>\<open>?\<close>, and
  the path and the fragment are percent-decoded. Schemes other than \<^verbatim>\<open>https\<close>, and
  user information, ports and bracketed hosts in the authority, do not occur in these
  addresses and are not interpreted.\<close>

definition ParseURL :: "string \<Rightarrow> error + URL" where
  "ParseURL rawURL =
     (case Cut rawURL (CHR ''#'') of
        (u, frag) \<Rightarrow>
          if stringContainsCTLByte u then Inl URLError
          else if take 6 u \<noteq> ''https:'' then Inl URLError
          else
            (let rest0 = drop 6 u;
                 force = (rest0 \<noteq> [] \<and> last rest0 = CHR ''?'' \<and> count_list rest0 (CHR ''?'') = 1);
                 rest = (if force then butlast rest0 else fst (Cut rest0 (CHR ''?'')));
                 query = (if force then [] else snd (Cut rest0 (CHR ''?'')))
             in if take 2 rest \<noteq> ''//'' then Inl URLError
                else
                  (let authority = takeWhile (\<lambda>c. c \<noteq> CHR ''/'') (drop 2 rest);
                       p = dropWhile (\<lambda>c. c \<noteq> CHR ''/'') (drop 2 rest)
                   in case unescape p of
                        None \<Rightarrow> Inl URLError
                      | Some path \<Rightarrow>
                          (case unescape frag of
                             None \<Rightarrow> Inl URLError
                           | Some fragment \<Rightarrow>
                               Inr \<lparr>Scheme = ''https'', Host = authority, Path = path,
                                    ForceQuery = force, RawQuery = query,
                                    Fragment = fragment\<rparr>))))"

record Request =
  Method :: string
  RequestURL :: URL
  Header :: "(string \<times> string) list"
  Body :: string

definition NewRequest :: "string \<Rightarrow> string \<Rightarrow> string \<Rightarrow> error + Request" where
  "NewRequest method url body =
     (case ParseURL url of
        Inl err \<Rightarrow> Inl err
      | Inr u \<Rightarrow> Inr \<lparr>Method = method, RequestURL = u, Header = [], Body = body\<rparr>)"

definition Header_Set :: "(string \<times> string) list \<Rightarrow> string \<Rightarrow> string \<Rightarrow> (string \<times> string) list" where
  "Header_Set h key v = filter (\<lambda>kv. fst kv \<noteq> key) h @ [(key, v)]"

record Cookie =
  Name :: string
  Value :: string

text \<open>A response as the program sees it: the status code, and what \<^verbatim>\<open>io.ReadAll\<close> gives
  when the body is read.\<close>

record Response =
  StatusCode :: int
  ResponseBody :: "error + string"

text \<open>\<^verbatim>\<open>http.Client\<close> and its cookie jar belong to the Go library. The program calls
  four operations on them, and these are parameters here, over a type \<open>'h\<close> of states of
  the HTTP client (its jar, and the network behind it): \<^verbatim>\<open>cookiejar.New\<close>;
  \<^verbatim>\<open>Client.Do\<close>, which gives an error or the response it hands back, the last one
  when it has followed redirects; \<^verbatim>\<open>Jar.Cookies\<close>; and \<^verbatim>\<open>Jar.SetCookies\<close>.\<close>

record 'h net_http =
  cookiejar_New :: "error + 'h"
  Do :: "'h \<Rightarrow> Request \<Rightarrow> 'h \<times> (error + Response)"
  Cookies :: "'h \<Rightarrow> URL \<Rightarrow> Cookie list"
  SetCookies :: "'h \<Rightarrow> URL \<Rightarrow> Cookie list \<Rightarrow> 'h"

text \<open>What a call leaves behind: the request handed to \<^verbatim>\<open>Client.Do\<close>, and the reading
  of a response body by the program.\<close>

datatype event = Called Request | ReadBody

record 'h Client =
  httpClient :: 'h
  baseURL :: string
  token :: string
  tokenId :: string

subsection \<open>api/client.go: the operations\<close>

definition NewClient :: "'h net_http \<Rightarrow> error + 'h Client" where
  "NewClient lib =
     (case cookiejar_New lib of
        Inl err \<Rightarrow> Inl err
      | Inr jar \<Rightarrow>
          Inr \<lparr>httpClient = jar, baseURL = ''https://syoj.org'', token = [], tokenId = []\<rparr>)"

text \<open>\<^verbatim>\<open>u, _ := url.Parse(client.baseURL)\<close> leaves \<open>u\<close> nil when the base address does
  not parse, and the jar then panics on it: that is the error \<open>NilURL\<close>.\<close>

definition NewClientWithCredentials :: "'h net_http \<Rightarrow> string \<Rightarrow> string \<Rightarrow> error + 'h Client" where
  "NewClientWithCredentials lib tok tokId =
     (case NewClient lib of
        Inl err \<Rightarrow> Inl err
      | Inr client \<Rightarrow>
          (case ParseURL (baseURL client) of
             Inl err \<Rightarrow> Inl NilURL
           | Inr u \<Rightarrow>
               Inr (client\<lparr>token := tok, tokenId := tokId,
                      httpClient := SetCookies lib (httpClient client) u
                        [\<lparr>Name = ''Token'', Value = tok\<rparr>,
                         \<lparr>Name = ''TokenId'', Value = tokId\<rparr>]\<rparr>)))"

definition Marshal_LoginRequest :: "string \<Rightarrow> string \<Rightarrow> string" where
  "Marshal_LoginRequest email password =
     ''{'' @ [dquote] @ ''email'' @ [dquote] @ '':'' @ appendString email @
     '','' @ [dquote] @ ''password'' @ [dquote] @ '':'' @ appendString password @ ''}''"

definition extract_cookie :: "Credentials \<Rightarrow> Cookie \<Rightarrow> Credentials" where
  "extract_cookie creds cookie =
     (if Name cookie = ''Token'' then creds\<lparr>Token := Value cookie\<rparr>
      else if Name cookie = ''TokenId'' then creds\<lparr>TokenId := Value cookie\<rparr>
      else creds)"

definition Login ::
  "'h net_http \<Rightarrow> 'h Client \<Rightarrow> string \<Rightarrow> string \<Rightarrow>
   'h Client \<times> event list \<times> (error + Credentials)" where
  "Login lib c email password =
     (case NewRequest ''POST'' (baseURL c @ ''/api/login'') (Marshal_LoginRequest email password) of
        Inl err \<Rightarrow> (c, [], Inl err)
      | Inr req0 \<Rightarrow>
          (let req = req0\<lparr>Header := Header_Set (Header_Set (Header req0)
                         ''Content-Type'' ''application/json'') ''User-Agent'' ''syojctl/1.0''\<rparr>
           in case Do lib (httpClient c) req of
                (h, Inl err) \<Rightarrow> (c\<lparr>httpClient := h\<rparr>, [Called req], Inl err)
              | (h, Inr resp) \<Rightarrow>
                  (case ResponseBody resp of
                     Inl err \<Rightarrow> (c\<lparr>httpClient := h\<rparr>, [Called req, ReadBody], Inl err)
                   | Inr body \<Rightarrow>
                       (case Unmarshal decode_LoginResponse body \<lparr>Message = []\<rparr> of
                          (loginResp, Some err) \<Rightarrow>
                            (c\<lparr>httpClient := h\<rparr>, [Called req, ReadBody], Inl err)
                        | (loginResp, None) \<Rightarrow>
                            if StatusCode resp = 200 \<and> Message loginResp = ''Successfully logged in''
                            then (case ParseURL (baseURL c) of
                                    Inl err \<Rightarrow>
                                      (c\<lparr>httpClient := h\<rparr>, [Called req, ReadBody], Inl NilURL)
                                  | Inr u \<Rightarrow>
                                      (c\<lparr>httpClient := h\<rparr>, [Called req, ReadBody],
                                       Inr (foldl extract_cookie \<lparr>Token = [], TokenId = []\<rparr>
                                              (Cookies lib h u))))
                            else (c\<lparr>httpClient := h\<rparr>, [Called req, ReadBody],
                                  Inl (LoginFailed (StatusCode resp) (Message loginResp)))))))"

definition GetProblem ::
  "'h net_http \<Rightarrow> 'h Client \<Rightarrow> string \<Rightarrow> 'h Client \<times> event list \<times> (error + Problem)" where
  "GetProblem lib c problemID =
     (case NewRequest ''GET'' (baseURL c @ ''/api/problems/'' @ problemID) [] of
        Inl err \<Rightarrow> (c, [], Inl err)
      | Inr req0 \<Rightarrow>
          (let req = req0\<lparr>Header := Header_Set (Header req0) ''User-Agent'' ''syojctl/1.0''\<rparr>
           in case Do lib (httpClient c) req of
                (h, Inl err) \<Rightarrow> (c\<lparr>httpClient := h\<rparr>, [Called req], Inl err)
              | (h, Inr resp) \<Rightarrow>
                  if StatusCode resp \<noteq> 200
                  then (c\<lparr>httpClient := h\<rparr>, [Called req], Inl (FetchFailed (StatusCode resp)))
                  else (case ResponseBody resp of
                          Inl err \<Rightarrow> (c\<lparr>httpClient := h\<rparr>, [Called req, ReadBody], Inl err)
                        | Inr body \<Rightarrow>
                            (case Unmarshal decode_Problem body zero_Problem of
                               (problem, Some err) \<Rightarrow>
                                 (c\<lparr>httpClient := h\<rparr>, [Called req, ReadBody], Inl err)
                             | (problem, None) \<Rightarrow>
                                 (c\<lparr>httpClient := h\<rparr>, [Called req, ReadBody], Inr problem)))))"

subsection \<open>cmd/show\_problem.go and cmd/submit.go\<close>







subsection \<open>A scripted HTTP client\<close>

text \<open>To run the operations on concrete inputs: a client whose network is a script, the
  answers of the server to the successive requests. An answer is the response, its
  \<^verbatim>\<open>Location\<close> header, and the cookies the jar holds for the base address once the
  answer has been taken. As \<^verbatim>\<open>http.Client\<close> does when no \<^verbatim>\<open>CheckRedirect\<close> is set
  (\<^verbatim>\<open>NewClient\<close> sets none), \<open>Do\<close> follows an answer with status 301, 302, 303, 307 or
  308 and a \<^verbatim>\<open>Location\<close> header by a further request, up to ten requests in all, and
  hands back the first answer that is not of that kind. \<^verbatim>\<open>Location\<close> headers are taken
  to be well-formed addresses. The jar is used from fresh only: \<open>SetCookies\<close> adds what it
  is given.\<close>

record answer =
  response :: Response
  Location :: string
  held_after :: "Cookie list"

record scripted =
  pending :: "answer list"
  held :: "Cookie list"

definition redirects :: "answer \<Rightarrow> bool" where
  "redirects a =
     (StatusCode (response a) \<in> {301, 302, 303, 307, 308} \<and> Location a \<noteq> [])"

fun follow :: "nat \<Rightarrow> answer list \<Rightarrow> Cookie list \<Rightarrow> scripted \<times> (error + Response)" where
  "follow n [] cookies = (\<lparr>pending = [], held = cookies\<rparr>, Inl TransportError)"
| "follow n (a # rest) cookies =
     (if redirects a then
        (if n = 0 then (\<lparr>pending = rest, held = held_after a\<rparr>, Inl RedirectError)
         else follow (n - 1) rest (held_after a))
      else (\<lparr>pending = rest, held = held_after a\<rparr>, Inr (response a)))"

definition scripted_http :: "answer list \<Rightarrow> scripted net_http" where
  "scripted_http script =
     \<lparr>cookiejar_New = Inr \<lparr>pending = script, held = []\<rparr>,
      Do = (\<lambda>h req. follow 9 (pending h) (held h)),
      Cookies = (\<lambda>h u. held h),
      SetCookies = (\<lambda>h u cookies. h\<lparr>held := held h @ cookies\<rparr>)\<rparr>"

definition base_URL :: URL where
  "base_URL = \<lparr>Scheme = ''https'', Host = ''syoj.org'', Path = [], ForceQuery = False,
               RawQuery = [], Fragment = []\<rparr>"

definition example_client :: "answer list \<Rightarrow> scripted Client" where
  "example_client script =
     \<lparr>httpClient = \<lparr>pending = script,
                     held = [\<lparr>Name = ''Token'', Value = ''abc''\<rparr>,
                             \<lparr>Name = ''TokenId'', Value = ''def''\<rparr>]\<rparr>,
      baseURL = ''https://syoj.org'', token = ''abc'', tokenId = ''def''\<rparr>"

definition fresh_client :: "answer list \<Rightarrow> scripted Client" where
  "fresh_client script =
     \<lparr>httpClient = \<lparr>pending = script, held = []\<rparr>,
      baseURL = ''https://syoj.org'', token = [], tokenId = []\<rparr>"

definition request_I002 :: Request where
  "request_I002 =
     \<lparr>Method = ''GET'',
      RequestURL = \<lparr>Scheme = ''https'', Host = ''syoj.org'', Path = ''/api/problems/I002'',
                    ForceQuery = False, RawQuery = [], Fragment = []\<rparr>,
      Header = [(''User-Agent'', ''syojctl/1.0'')], Body = []\<rparr>"

definition not_found :: answer where
  "not_found =
     \<lparr>response = \<lparr>StatusCode = 404, ResponseBody = Inr ''Not Found''\<rparr>, Location = [],
      held_after = [\<lparr>Name = ''Token'', Value = ''abc''\<rparr>, \<lparr>Name = ''TokenId'', Value = ''def''\<rparr>]\<rparr>"

definition moved :: answer where
  "moved =
     \<lparr>response = \<lparr>StatusCode = 302, ResponseBody = Inr []\<rparr>,
      Location = ''https://syoj.org/login'',
      held_after = [\<lparr>Name = ''Token'', Value = ''abc''\<rparr>, \<lparr>Name = ''TokenId'', Value = ''def''\<rparr>]\<rparr>"

definition empty_object :: answer where
  "empty_object =
     \<lparr>response = \<lparr>StatusCode = 200, ResponseBody = Inr ''{}''\<rparr>, Location = [],
      held_after = [\<lparr>Name = ''Token'', Value = ''abc''\<rparr>, \<lparr>Name = ''TokenId'', Value = ''def''\<rparr>]\<rparr>"

lemma ParseURL_base: "ParseURL ''https://syoj.org'' = Inr base_URL"
  by (simp add: ParseURL_def Cut_def stringContainsCTLByte_def Let_def base_URL_def)

lemma ParseURL_login:
  "ParseURL ''https://syoj.org/api/login'' =
     Inr \<lparr>Scheme = ''https'', Host = ''syoj.org'', Path = ''/api/login'', ForceQuery = False,
          RawQuery = [], Fragment = []\<rparr>"
  by (simp add: ParseURL_def Cut_def stringContainsCTLByte_def Let_def)

lemma ParseURL_I002:
  "ParseURL ''https://syoj.org/api/problems/I002'' =
     Inr \<lparr>Scheme = ''https'', Host = ''syoj.org'', Path = ''/api/problems/I002'',
          ForceQuery = False, RawQuery = [], Fragment = []\<rparr>"
  by (simp add: ParseURL_def Cut_def stringContainsCTLByte_def Let_def)

lemma NewClientWithCredentials_example:
  "NewClientWithCredentials (scripted_http script) ''abc'' ''def'' = Inr (example_client script)"
  by (simp add: NewClientWithCredentials_def NewClient_def scripted_http_def ParseURL_base
      example_client_def)

lemma NewClient_fresh: "NewClient (scripted_http script) = Inr (fresh_client script)"
  by (simp add: NewClient_def scripted_http_def fresh_client_def)

lemma Unmarshal_empty_object: "Unmarshal decode_Problem ''{}'' zero_Problem = (zero_Problem, None)"
  by (simp add: Unmarshal_def json_parse_braces decode_Problem_def decode_struct_def)

subsection \<open>GetProblem and the status of the response\<close>

text \<open>Claim C6, as stated, fails for a response that the HTTP client does not hand to
  \<^verbatim>\<open>GetProblem\<close>. The server answers the request for \<^verbatim>\<open>I002\<close> with status 302 and
  a \<^verbatim>\<open>Location\<close> header; the client follows it, and the answer to the second request,
  status 200 with the body \<^verbatim>\<open>{}\<close>, is the one \<^verbatim>\<open>GetProblem\<close> sees: it reads the
  body and returns a problem, not a failure that carries 302.\<close>

theorem GetProblem_redirect_followed:
  "StatusCode (response moved) = 302 \<and>
   GetProblem (scripted_http [moved, empty_object]) (example_client [moved, empty_object]) ''I002''
     = (example_client [], [Called request_I002, ReadBody], Inr zero_Problem)"
  by (simp add: GetProblem_def NewRequest_def example_client_def ParseURL_I002 scripted_http_def
      moved_def empty_object_def redirects_def request_I002_def Header_Set_def
      Unmarshal_empty_object Let_def)

text \<open>Claim C6, amended: for every response that \<^verbatim>\<open>Client.Do\<close> hands back to
  \<^verbatim>\<open>GetProblem\<close> with a status other than 200, \<^verbatim>\<open>GetProblem\<close> returns the failure
  that carries that status code (404 gives the failure with 404), and it does not read the
  body: the request handed to \<^verbatim>\<open>Client.Do\<close> is all that the call leaves behind.\<close>

theorem GetProblem_non200:
  assumes "NewRequest ''GET'' (baseURL c @ ''/api/problems/'' @ problemID) [] = Inr req0"
    and "Do lib (httpClient c) (req0\<lparr>Header := Header_Set (Header req0) ''User-Agent'' ''syojctl/1.0''\<rparr>)
           = (h, Inr resp)"
    and "StatusCode resp \<noteq> 200"
  shows "GetProblem lib c problemID =
           (c\<lparr>httpClient := h\<rparr>,
            [Called (req0\<lparr>Header := Header_Set (Header req0) ''User-Agent'' ''syojctl/1.0''\<rparr>)],
            Inl (FetchFailed (StatusCode resp)))"
  using assms by (simp add: GetProblem_def Let_def)

theorem GetProblem_non200_witness:
  "NewRequest ''GET'' (baseURL (example_client [not_found]) @ ''/api/problems/'' @ ''I002'') []
     = Inr (request_I002\<lparr>Header := []\<rparr>) \<and>
   Do (scripted_http [not_found]) (httpClient (example_client [not_found])) request_I002
     = (httpClient (example_client []), Inr (response not_found)) \<and>
   StatusCode (response not_found) \<noteq> 200 \<and>
   GetProblem (scripted_http [not_found]) (example_client [not_found]) ''I002''
     = (example_client [], [Called request_I002], Inl (FetchFailed 404))"
proof -
  let ?c = "example_client [not_found]"
  let ?req0 = "request_I002\<lparr>Header := []\<rparr>"
  have r: "?req0\<lparr>Header := Header_Set (Header ?req0) ''User-Agent'' ''syojctl/1.0''\<rparr> = request_I002"
    by (simp add: request_I002_def Header_Set_def)
  have n: "NewRequest ''GET'' (baseURL ?c @ ''/api/problems/'' @ ''I002'') [] = Inr ?req0"
    by (simp add: NewRequest_def example_client_def ParseURL_I002 request_I002_def)
  have d: "Do (scripted_http [not_found]) (httpClient ?c)
             (?req0\<lparr>Header := Header_Set (Header ?req0) ''User-Agent'' ''syojctl/1.0''\<rparr>)
           = (httpClient (example_client []), Inr (response not_found))"
    by (simp add: scripted_http_def example_client_def not_found_def redirects_def)
  have s: "StatusCode (response not_found) \<noteq> 200"
    by (simp add: not_found_def)
  have c: "?c\<lparr>httpClient := httpClient (example_client [])\<rparr> = example_client []"
    by (simp add: example_client_def)
  have f: "StatusCode (response not_found) = 404"
    by (simp add: not_found_def)
  from GetProblem_non200 [OF n d s] have
    "GetProblem (scripted_http [not_found]) ?c ''I002''
       = (example_client [], [Called request_I002], Inl (FetchFailed 404))"
    unfolding r c f .
  with n d s show ?thesis
    unfolding r by blast
qed

definition message_body :: "string \<Rightarrow> string" where
  "message_body m = ''{'' @ [dquote] @ ''message'' @ [dquote] @ '':'' @ appendString m @ ''}''"

lemma scan_string_message:
  "scan_string (''message'' @ dquote # tail) = Some (''message'', tail)"
  by (simp add: scan_string.simps unquote_step_def dquote_def backslash_def)

lemma json_parse_message_body:
  "json_parse (message_body m) = Some (JObject [(''message'', JString (coerce_utf8 m))])"
proof -
  let ?t = "appendString_body m"
  let ?tail = "dquote # ?t @ dquote # ''}''"
  let ?m1 = "dquote # ''message'' @ dquote # '':'' @ ?tail"
  have data: "message_body m = ''{'' @ ?m1"
    by (simp add: message_body_def appendString_def)
  have v: "parse_value (Suc n) d ?tail = Some (JString (coerce_utf8 m), ''}'')" for n d
    using scan_string_appendString [of m "''}''"]
    by (simp add: dquote_def)
  have m1: "parse_members (Suc (Suc n)) d ?m1 = Some ([(''message'', JString (coerce_utf8 m))], [])"
    for n d
    using scan_string_message [of "'':'' @ ?tail"] v [of n d]
    by (simp add: skip_space_def isSpace_def dquote_def)
  have "3 \<le> length (message_body m)"
    unfolding data by simp
  then obtain k where "length (message_body m) = 3 + k"
    using le_Suc_ex by blast
  then have n: "length (message_body m) = Suc (Suc (Suc k))"
    by simp
  have "parse_value (Suc (length (message_body m))) 0 (''{'' @ ?m1)
          = Some (JObject [(''message'', JString (coerce_utf8 m))], [])"
    unfolding n using m1 [of "Suc k" "Suc 0"]
    by (simp add: skip_space_def isSpace_def dquote_def maxNestingDepth_def)
  then show ?thesis
    unfolding json_parse_def data [symmetric]
    by (simp add: skip_space_def isSpace_def data)
qed

lemma coerce_utf8_ascii_string:
  "list_all (\<lambda>c. (of_char c :: nat) < 0x80) s \<Longrightarrow> coerce_utf8 s = s"
proof (induction s)
  case Nil
  then show ?case by (simp add: coerce_utf8.simps [of "[]"])
next
  case (Cons c s)
  then show ?case
    by (simp add: coerce_utf8.simps [of "c # s"] coerce_step_def)
qed

lemma Unmarshal_message_body:
  "list_all (\<lambda>c. (of_char c :: nat) < 0x80) m \<Longrightarrow>
   Unmarshal decode_LoginResponse (message_body m) \<lparr>Message = []\<rparr> = (\<lparr>Message = m\<rparr>, None)"
  by (simp add: Unmarshal_def json_parse_message_body coerce_utf8_ascii_string
      decode_LoginResponse_def decode_struct_def find_field_def store_def decode_string_def
      saveError_def)

subsection \<open>Login\<close>

lemma json_parse_not_json: "json_parse ''Unauthorized'' = None"
  by (simp add: json_parse_def skip_space_def isSpace_def dquote_def is_digit_def)

lemma Login_Do:
  assumes "NewRequest ''POST'' (baseURL c @ ''/api/login'') (Marshal_LoginRequest email password)
             = Inr req0"
    and "Do lib (httpClient c)
           (req0\<lparr>Header := Header_Set (Header_Set (Header req0)
                     ''Content-Type'' ''application/json'') ''User-Agent'' ''syojctl/1.0''\<rparr>)
           = (h, Inr resp)"
    and "ResponseBody resp = Inr body"
    and "ParseURL (baseURL c) = Inr u"
    and "Unmarshal decode_LoginResponse body \<lparr>Message = []\<rparr> = (loginResp, e)"
  shows "Login lib c email password =
           (c\<lparr>httpClient := h\<rparr>,
            [Called (req0\<lparr>Header := Header_Set (Header_Set (Header req0)
                     ''Content-Type'' ''application/json'') ''User-Agent'' ''syojctl/1.0''\<rparr>),
             ReadBody],
            case e of
              Some err \<Rightarrow> Inl err
            | None \<Rightarrow>
                if StatusCode resp = 200 \<and> Message loginResp = ''Successfully logged in''
                then Inr (foldl extract_cookie \<lparr>Token = [], TokenId = []\<rparr> (Cookies lib h u))
                else Inl (LoginFailed (StatusCode resp) (Message loginResp)))"
  using assms by (simp add: Login_def Let_def split: option.splits)

definition login_request :: "string \<Rightarrow> string \<Rightarrow> Request" where
  "login_request email password =
     \<lparr>Method = ''POST'',
      RequestURL = \<lparr>Scheme = ''https'', Host = ''syoj.org'', Path = ''/api/login'',
                    ForceQuery = False, RawQuery = [], Fragment = []\<rparr>,
      Header = [(''Content-Type'', ''application/json''), (''User-Agent'', ''syojctl/1.0'')],
      Body = Marshal_LoginRequest email password\<rparr>"

lemma login_request_headers:
  "(login_request email password)\<lparr>Header := []\<rparr>
     \<lparr>Header := Header_Set (Header_Set (Header ((login_request email password)\<lparr>Header := []\<rparr>))
                   ''Content-Type'' ''application/json'') ''User-Agent'' ''syojctl/1.0''\<rparr>
   = login_request email password"
  by (simp add: login_request_def Header_Set_def)

lemma NewRequest_login:
  "NewRequest ''POST'' (baseURL (fresh_client script) @ ''/api/login'')
     (Marshal_LoginRequest email password) = Inr ((login_request email password)\<lparr>Header := []\<rparr>)"
  by (simp add: NewRequest_def fresh_client_def ParseURL_login login_request_def)

lemma Do_single:
  "\<not> redirects a \<Longrightarrow>
   Do (scripted_http script) (httpClient (fresh_client [a])) req
     = (\<lparr>pending = [], held = held_after a\<rparr>, Inr (response a))"
  by (simp add: scripted_http_def fresh_client_def)

definition unauthorized :: answer where
  "unauthorized =
     \<lparr>response = \<lparr>StatusCode = 401, ResponseBody = Inr ''Unauthorized''\<rparr>, Location = [],
      held_after = []\<rparr>"

text \<open>Claim C2, as stated, fails for a response whose body is not JSON: with status 401
  and the body \<^verbatim>\<open>Unauthorized\<close> the response is read, and \<^verbatim>\<open>Login\<close> returns the
  decoder's syntax error, which carries neither the status code nor a message.\<close>

theorem Login_body_not_json:
  "StatusCode (response unauthorized) = 401 \<and>
   Login (scripted_http [unauthorized]) (fresh_client [unauthorized]) ''u@example.com'' ''secret''
     = (fresh_client [], [Called (login_request ''u@example.com'' ''secret''), ReadBody],
        Inl SyntaxError)"
  by (simp add: Login_def NewRequest_def fresh_client_def ParseURL_login scripted_http_def
      unauthorized_def redirects_def login_request_def Header_Set_def Unmarshal_def
      json_parse_not_json Let_def)

text \<open>Claim C2, amended: for every response that \<^verbatim>\<open>Client.Do\<close> hands back to
  \<^verbatim>\<open>Login\<close> and whose body is read and decodes as the login response, \<^verbatim>\<open>Login\<close>
  succeeds if and only if the status is 200 and the message is the literal
  \<^verbatim>\<open>Successfully logged in\<close>, and every other such response gives the failure that
  carries the status code and the message. A response whose body does not decode gives the
  decoder's error, whatever its status.\<close>

theorem Login_outcome:
  assumes "NewRequest ''POST'' (baseURL c @ ''/api/login'') (Marshal_LoginRequest email password)
             = Inr req0"
    and "Do lib (httpClient c)
           (req0\<lparr>Header := Header_Set (Header_Set (Header req0)
                     ''Content-Type'' ''application/json'') ''User-Agent'' ''syojctl/1.0''\<rparr>)
           = (h, Inr resp)"
    and "ResponseBody resp = Inr body"
    and "ParseURL (baseURL c) = Inr u"
  shows "(\<forall>loginResp. Unmarshal decode_LoginResponse body \<lparr>Message = []\<rparr> = (loginResp, None) \<longrightarrow>
            ((\<exists>creds. snd (snd (Login lib c email password)) = Inr creds) \<longleftrightarrow>
               StatusCode resp = 200 \<and> Message loginResp = ''Successfully logged in'') \<and>
            (\<not> (StatusCode resp = 200 \<and> Message loginResp = ''Successfully logged in'') \<longrightarrow>
               snd (snd (Login lib c email password))
                 = Inl (LoginFailed (StatusCode resp) (Message loginResp)))) \<and>
         (\<forall>loginResp err.
            Unmarshal decode_LoginResponse body \<lparr>Message = []\<rparr> = (loginResp, Some err) \<longrightarrow>
            snd (snd (Login lib c email password)) = Inl err)"
proof (intro conjI allI impI)
  fix loginResp
  assume m: "Unmarshal decode_LoginResponse body \<lparr>Message = []\<rparr> = (loginResp, None)"
  show "(\<exists>creds. snd (snd (Login lib c email password)) = Inr creds) \<longleftrightarrow>
          StatusCode resp = 200 \<and> Message loginResp = ''Successfully logged in''"
    by (simp add: Login_Do [OF assms m])
  assume "\<not> (StatusCode resp = 200 \<and> Message loginResp = ''Successfully logged in'')"
  then show "snd (snd (Login lib c email password))
               = Inl (LoginFailed (StatusCode resp) (Message loginResp))"
    by (simp add: Login_Do [OF assms m])
next
  fix loginResp err
  assume m: "Unmarshal decode_LoginResponse body \<lparr>Message = []\<rparr> = (loginResp, Some err)"
  show "snd (snd (Login lib c email password)) = Inl err"
    by (simp add: Login_Do [OF assms m])
qed

definition invalid_credentials :: answer where
  "invalid_credentials =
     \<lparr>response = \<lparr>StatusCode = 200, ResponseBody = Inr (message_body ''Invalid credentials'')\<rparr>,
      Location = [], held_after = []\<rparr>"

theorem Login_outcome_witness:
  "NewRequest ''POST'' (baseURL (fresh_client [invalid_credentials]) @ ''/api/login'')
     (Marshal_LoginRequest ''u@example.com'' ''secret'')
     = Inr ((login_request ''u@example.com'' ''secret'')\<lparr>Header := []\<rparr>) \<and>
   Do (scripted_http [invalid_credentials]) (httpClient (fresh_client [invalid_credentials]))
     (login_request ''u@example.com'' ''secret'')
     = (\<lparr>pending = [], held = []\<rparr>, Inr (response invalid_credentials)) \<and>
   ResponseBody (response invalid_credentials) = Inr (message_body ''Invalid credentials'') \<and>
   ParseURL (baseURL (fresh_client [invalid_credentials])) = Inr base_URL \<and>
   Unmarshal decode_LoginResponse (message_body ''Invalid credentials'') \<lparr>Message = []\<rparr>
     = (\<lparr>Message = ''Invalid credentials''\<rparr>, None) \<and>
   snd (snd (Login (scripted_http [invalid_credentials]) (fresh_client [invalid_credentials])
               ''u@example.com'' ''secret''))
     = Inl (LoginFailed 200 ''Invalid credentials'')"
proof -
  let ?c = "fresh_client [invalid_credentials]"
  let ?lib = "scripted_http [invalid_credentials]"
  let ?req0 = "(login_request ''u@example.com'' ''secret'')\<lparr>Header := []\<rparr>"
  let ?l = "Login ?lib ?c ''u@example.com'' ''secret''"
  have n: "NewRequest ''POST'' (baseURL ?c @ ''/api/login'')
             (Marshal_LoginRequest ''u@example.com'' ''secret'') = Inr ?req0"
    by (rule NewRequest_login)
  have d0: "Do ?lib (httpClient ?c) (login_request ''u@example.com'' ''secret'')
             = (\<lparr>pending = [], held = []\<rparr>, Inr (response invalid_credentials))"
    using Do_single [of invalid_credentials "[invalid_credentials]"]
    by (simp add: invalid_credentials_def redirects_def)
  have d: "Do ?lib (httpClient ?c)
             (?req0\<lparr>Header := Header_Set (Header_Set (Header ?req0)
                     ''Content-Type'' ''application/json'') ''User-Agent'' ''syojctl/1.0''\<rparr>)
             = (\<lparr>pending = [], held = []\<rparr>, Inr (response invalid_credentials))"
    unfolding login_request_headers by (rule d0)
  have b: "ResponseBody (response invalid_credentials) = Inr (message_body ''Invalid credentials'')"
    by (simp add: invalid_credentials_def)
  have p: "ParseURL (baseURL ?c) = Inr base_URL"
    by (simp add: fresh_client_def ParseURL_base)
  have u: "Unmarshal decode_LoginResponse (message_body ''Invalid credentials'') \<lparr>Message = []\<rparr>
             = (\<lparr>Message = ''Invalid credentials''\<rparr>, None)"
    by (rule Unmarshal_message_body) simp
  have s: "StatusCode (response invalid_credentials) = 200"
    by (simp add: invalid_credentials_def)
  from Login_outcome [OF n d b p] u have
    "\<not> (StatusCode (response invalid_credentials) = 200 \<and>
        Message \<lparr>Message = ''Invalid credentials''\<rparr> = ''Successfully logged in'') \<longrightarrow>
     snd (snd ?l) = Inl (LoginFailed (StatusCode (response invalid_credentials))
        (Message \<lparr>Message = ''Invalid credentials''\<rparr>))"
    by blast
  then have "snd (snd ?l) = Inl (LoginFailed 200 ''Invalid credentials'')"
    by (simp add: s)
  with n d0 b p u show ?thesis
    by blast
qed

subsection \<open>The record a successful login returns\<close>








subsection \<open>The address GetProblem asks for\<close>

lemma unescape_problems_prefix:
  "unescape (''/api/problems/'' @ p) =
     (case unescape p of None \<Rightarrow> None | Some t \<Rightarrow> Some (''/api/problems/'' @ t))"
  by (simp split: option.splits)






subsection \<open>The commands and the loaded record\<close>









end
